theory Spec2Isabelle
  imports
    Complex_Main
    "HOL-Library.AList"
    "HOL-Library.Char_ord"
    "HOL-Library.List_Lexorder"
    "HOL-Library.Product_Lexorder"
begin

section \<open>Numbers\<close>

text \<open>
  The program computes with Python floats. In the feasibility analysis, the distances
  and the scores they are modelled as real numbers: sums, products, quotients and
  comparisons are exact there. Where a rounded result is stored and compared again, the
  load of a truck in the greedy strategies, the rounding of the double operation is part
  of the model (\<open>fl\<close> below). The one non-finite value the source produces on purpose,
  \<^verbatim>\<open>float('inf')\<close>, is the constructor \<open>PInf\<close>; the operations below are the
  IEEE ones on finite values and on positive infinity.
\<close>

datatype pyfloat = Fin real | PInf

fun fadd :: "pyfloat \<Rightarrow> pyfloat \<Rightarrow> pyfloat" where
  "fadd (Fin a) (Fin b) = Fin (a + b)"
| "fadd _ _ = PInf"

text \<open>Subtraction of a finite number (the only subtraction the source applies to a time).\<close>

fun fsub :: "pyfloat \<Rightarrow> real \<Rightarrow> pyfloat" where
  "fsub (Fin a) b = Fin (a - b)"
| "fsub PInf b = PInf"

fun fgt :: "pyfloat \<Rightarrow> pyfloat \<Rightarrow> bool" where
  "fgt (Fin a) (Fin b) = (a > b)"
| "fgt PInf (Fin b) = True"
| "fgt _ PInf = False"

definition fle :: "pyfloat \<Rightarrow> pyfloat \<Rightarrow> bool" where
  "fle a b = (\<not> fgt a b)"

text \<open>Python's \<^verbatim>\<open>max(a, b)\<close> returns \<open>a\<close> unless \<open>b > a\<close>.\<close>

definition fmax :: "pyfloat \<Rightarrow> pyfloat \<Rightarrow> pyfloat" where
  "fmax a b = (if fgt b a then b else a)"

text \<open>
  \<^verbatim>\<open>round(x, n)\<close>: the nearest multiple of \<open>10^-n\<close>, a tie going to the even one.
\<close>

definition py_round :: "real \<Rightarrow> nat \<Rightarrow> real" where
  "py_round x n =
     (let y = x * 10 ^ n; f = \<lfloor>y\<rfloor>; r = y - of_int f
      in of_int (if r < 1 / 2 then f else if 1 / 2 < r then f + 1
                 else if even f then f else f + 1) / 10 ^ n)"

definition radians :: "real \<Rightarrow> real" where
  "radians x = x * pi / 180"

subsection \<open>Doubles\<close>

text \<open>
  A Python float is an IEEE double: a multiple of a power of two with a mantissa of 53
  bits, the least exponent being -1022. An operation returns the double nearest to the
  exact result, a tie going to the even mantissa: \<open>fl\<close>. Overflow to infinity, beyond
  about \<open>1.8 * 10^308\<close>, is outside the model. \<open>is_double\<close> holds of the reals that
  are doubles.
\<close>

definition rne :: "real \<Rightarrow> int" where
  "rne y =
     (let f = \<lfloor>y\<rfloor>; r = y - of_int f
      in if r < 1 / 2 then f else if 1 / 2 < r then f + 1
         else if even f then f else f + 1)"

definition binade :: "real \<Rightarrow> int" where
  "binade x = max \<lfloor>log 2 \<bar>x\<bar>\<rfloor> (- 1022)"

definition ulp :: "real \<Rightarrow> real" where
  "ulp x = 2 powr of_int (binade x - 52)"

definition fl :: "real \<Rightarrow> real" where
  "fl x = (if x = 0 then 0 else of_int (rne (x / ulp x)) * ulp x)"

definition is_double :: "real \<Rightarrow> bool" where
  "is_double x \<longleftrightarrow> fl x = x"

subsection \<open>Exceptions\<close>

datatype error = ValueError | ZeroDivisionError | RuntimeError | AttributeError

section \<open>dispo.py: constants and entities\<close>

text \<open>
  The module-level constants that the optimisation functions read. They are passed
  explicitly, so that the guard of \<open>calculate_travel_time_h\<close> on the average speed can
  be examined; \<open>module_constants\<close> holds the values the file assigns.
\<close>

record constants =
  AVERAGE_SPEED_KMH :: real
  PRIORITIES_MAP :: "(int \<times> int) list"
  PRIORITY_WEIGHT_FACTOR :: real
  DISTANCE_COST_FACTOR :: real

definition module_constants :: constants where
  "module_constants =
     \<lparr>AVERAGE_SPEED_KMH = 80, PRIORITIES_MAP = [(1, 3), (2, 2), (3, 1)],
      PRIORITY_WEIGHT_FACTOR = 10000, DISTANCE_COST_FACTOR = 1\<rparr>"

type_synonym point = "real \<times> real"

record Truck =
  truck_id :: string
  location :: point
  capacity_kg :: real
  available_from_h :: real
  available_until_h :: real

record Order =
  order_id :: string
  loading_site :: point
  unloading_site :: point
  weight_kg :: real
  loading_window_early_h :: real
  loading_window_late_h :: real
  loading_duration_h :: real
  unloading_duration_h :: real
  priority :: int

section \<open>dispo.py: helper functions\<close>

text \<open>
  \<open>calculate_distance\<close>: the haversine formula, rounded to two decimals.
  \<^verbatim>\<open>math.sqrt\<close> and \<^verbatim>\<open>math.asin\<close> raise outside their domains; lemma
  \<open>haversine_domain\<close> below shows that the argument \<open>a\<close> always lies in \<open>[0, 1]\<close>,
  so no branch for that error is needed.
\<close>

definition calculate_distance :: "point \<Rightarrow> point \<Rightarrow> real" where
  "calculate_distance point1 point2 =
     (let lat1 = radians (fst point1); lon1 = radians (snd point1);
          lat2 = radians (fst point2); lon2 = radians (snd point2);
          dlat = lat2 - lat1;
          dlon = lon2 - lon1;
          a = (sin (dlat / 2))\<^sup>2 + cos lat1 * cos lat2 * (sin (dlon / 2))\<^sup>2;
          c = 2 * arcsin (sqrt a);
          r = 6371;
          distance_km = c * r
      in py_round distance_km 2)"

definition calculate_travel_time_h :: "constants \<Rightarrow> real \<Rightarrow> pyfloat" where
  "calculate_travel_time_h g distance_km =
     (if AVERAGE_SPEED_KMH g \<le> 0 then PInf
      else Fin (distance_km / AVERAGE_SPEED_KMH g))"

section \<open>dispo.py: feasibility analysis\<close>

text \<open>The value stored for a permissible pair (the keys of the source's inner dict).\<close>

record pair_values =
  distanz_anfahrt :: real
  distanz_transport :: real
  distanz_gesamt_fuer_auftrag :: real
  prio_original :: int
  prio_gewicht :: int
  anfahrt_lkw_h :: pyfloat
  ladebeginn_calc_h :: pyfloat
  ladeende_calc_h :: pyfloat
  ankunft_entladestelle_calc_h :: pyfloat
  entladung_ende_calc_h :: pyfloat
  gesamtdauer_auftrag_ab_lkw_start_h :: pyfloat

type_synonym pair_key = "string \<times> string"

text \<open>
  A Python dict keeps insertion order, and assigning to a key that is present replaces
  the value in place: an association list with \<open>AList.update\<close>.
\<close>

type_synonym pairs = "(pair_key \<times> pair_values) list"

text \<open>\<^verbatim>\<open>PRIORITIES_MAP.get(p, 0)\<close>.\<close>

definition priorities_get :: "constants \<Rightarrow> int \<Rightarrow> int" where
  "priorities_get g p = (case map_of (PRIORITIES_MAP g) p of Some w \<Rightarrow> w | None \<Rightarrow> 0)"

text \<open>
  The body of the inner loop of \<open>determine_permissible_pairs_and_values\<close> up to the
  assignment to the dict: \<open>None\<close> is a \<^verbatim>\<open>continue\<close>, \<open>Some v\<close> the value stored
  for the pair.
\<close>

definition check_pair :: "constants \<Rightarrow> Truck \<Rightarrow> Order \<Rightarrow> pair_values option" where
  "check_pair g truck order =
     (if capacity_kg truck < weight_kg order then None
      else
        let approach_distance = calculate_distance (location truck) (loading_site order);
            approach_time_h = calculate_travel_time_h g approach_distance;
            arrival_loading_site_truck_h = fadd (Fin (available_from_h truck)) approach_time_h;
            loading_start_calc_h =
              fmax arrival_loading_site_truck_h (Fin (loading_window_early_h order));
            latest_loading_start_order_h = loading_window_late_h order - loading_duration_h order
        in if fgt loading_start_calc_h (Fin (latest_loading_start_order_h + 0.01))
           then None
           else
             let loading_end_calc_h = fadd loading_start_calc_h (Fin (loading_duration_h order));
                 transport_distance =
                   calculate_distance (loading_site order) (unloading_site order);
                 transport_time_h = calculate_travel_time_h g transport_distance;
                 arrival_unloading_site_calc_h = fadd loading_end_calc_h transport_time_h;
                 unloading_end_calc_h =
                   fadd arrival_unloading_site_calc_h (Fin (unloading_duration_h order))
             in if fgt unloading_end_calc_h (Fin (available_until_h truck + 0.01))
                then None
                else
                  let total_distance_for_order = approach_distance + transport_distance
                  in Some
                       \<lparr>distanz_anfahrt = approach_distance,
                        distanz_transport = transport_distance,
                        distanz_gesamt_fuer_auftrag = total_distance_for_order,
                        prio_original = priority order,
                        prio_gewicht = priorities_get g (priority order),
                        anfahrt_lkw_h = arrival_loading_site_truck_h,
                        ladebeginn_calc_h = loading_start_calc_h,
                        ladeende_calc_h = loading_end_calc_h,
                        ankunft_entladestelle_calc_h = arrival_unloading_site_calc_h,
                        entladung_ende_calc_h = unloading_end_calc_h,
                        gesamtdauer_auftrag_ab_lkw_start_h =
                          fsub unloading_end_calc_h (available_from_h truck)\<rparr>)"

definition pair_step :: "constants \<Rightarrow> Truck \<Rightarrow> Order \<Rightarrow> pairs \<Rightarrow> pairs" where
  "pair_step g truck order permissible_pairs =
     (case check_pair g truck order of
        None \<Rightarrow> permissible_pairs
      | Some v \<Rightarrow>
          AList.update (Truck.truck_id truck, Order.order_id order) v permissible_pairs)"

text \<open>The two nested \<^verbatim>\<open>for\<close> loops.\<close>

definition permissible_loop :: "constants \<Rightarrow> Truck list \<Rightarrow> Order list \<Rightarrow> pairs" where
  "permissible_loop g truck_list order_list =
     foldl (\<lambda>pp truck. foldl (\<lambda>pp' order. pair_step g truck order pp') pp order_list)
       [] truck_list"

text \<open>
  What a run can read and write besides its arguments: the module constants and the
  console. The function prints a heading and, at the end, the number of pairs.
\<close>

datatype console_line =
    Heading
  | Pair_count nat
  | Objective_value real
  | Assignment_count nat
  | Total_distance real
  | Average_distance real

record world =
  module_globals :: constants
  stdout :: "console_line list"

definition determine_permissible_pairs_and_values ::
    "world \<Rightarrow> Truck list \<Rightarrow> Order list \<Rightarrow> pairs \<times> world" where
  "determine_permissible_pairs_and_values w truck_list order_list =
     (let w1 = w\<lparr>stdout := stdout w @ [Heading]\<rparr>;
          permissible_pairs = permissible_loop (module_globals w1) truck_list order_list;
          w2 = w1\<lparr>stdout := stdout w1 @ [Pair_count (length permissible_pairs)]\<rparr>
      in (permissible_pairs, w2))"

subsection \<open>The feasibility conditions as the specification words them\<close>

definition travelTime :: "constants \<Rightarrow> real \<Rightarrow> pyfloat" where
  "travelTime g d = calculate_travel_time_h g d"

definition loadingStart :: "constants \<Rightarrow> Truck \<Rightarrow> Order \<Rightarrow> pyfloat" where
  "loadingStart g t o' =
     fmax (fadd (Fin (available_from_h t))
                (travelTime g (calculate_distance (location t) (loading_site o'))))
          (Fin (loading_window_early_h o'))"

definition loadingEnd :: "constants \<Rightarrow> Truck \<Rightarrow> Order \<Rightarrow> pyfloat" where
  "loadingEnd g t o' = fadd (loadingStart g t o') (Fin (loading_duration_h o'))"

definition unloadingEnd :: "constants \<Rightarrow> Truck \<Rightarrow> Order \<Rightarrow> pyfloat" where
  "unloadingEnd g t o' =
     fadd (fadd (loadingEnd g t o')
                (travelTime g (calculate_distance (loading_site o') (unloading_site o'))))
          (Fin (unloading_duration_h o'))"

definition feasible :: "constants \<Rightarrow> Truck \<Rightarrow> Order \<Rightarrow> bool" where
  "feasible g t o' \<longleftrightarrow>
     weight_kg o' \<le> capacity_kg t \<and>
     fle (loadingStart g t o')
         (Fin (loading_window_late_h o' - loading_duration_h o' + 0.01)) \<and>
     fle (unloadingEnd g t o') (Fin (available_until_h t + 0.01))"

section \<open>dispo.py: the optimisation model\<close>

text \<open>
  The PuLP problem as data: the sense, the objective as a list of terms
  (coefficient, variable) and the constraints, each the sum of the listed variables
  bounded by a right-hand side. A binary variable is identified with the pair it
  was created for, so \<open>x_vars\<close> is the list of keys of the permissible pairs.
\<close>

datatype lp_sense = LpMaximize | LpMinimize

record lp_constraint =
  con_name :: string
  con_sum :: "pair_key list"
  con_upper :: real

record lp_problem =
  prob_name :: string
  sense :: lp_sense
  objective :: "(real \<times> pair_key) list"
  constraints :: "lp_constraint list"

definition create_lp_model ::
    "constants \<Rightarrow> Truck list \<Rightarrow> Order list \<Rightarrow> pairs \<Rightarrow> lp_problem \<times> pair_key list" where
  "create_lp_model g truck_list order_list permissible_pairs_with_values =
     (let x_vars = map fst permissible_pairs_with_values;
          objective_components =
            map (\<lambda>(pair_key, values_dict).
                   let priority_reward =
                         PRIORITY_WEIGHT_FACTOR g * of_int (prio_gewicht values_dict);
                       distance_penalty =
                         DISTANCE_COST_FACTOR g * distanz_gesamt_fuer_auftrag values_dict;
                       net_value_assignment = priority_reward - distance_penalty
                   in (net_value_assignment, pair_key))
                permissible_pairs_with_values;
          order_constraints =
            map (\<lambda>order.
                   \<lparr>con_name = ''Order_'' @ Order.order_id order @ ''_max_once'',
                    con_sum = map (\<lambda>truck. (Truck.truck_id truck, Order.order_id order))
                                (filter (\<lambda>truck. (Truck.truck_id truck, Order.order_id order)
                                                  \<in> set x_vars) truck_list),
                    con_upper = 1\<rparr>)
                order_list;
          truck_constraints =
            map (\<lambda>truck.
                   \<lparr>con_name = ''Truck_'' @ Truck.truck_id truck @ ''_max_one_order'',
                    con_sum = map (\<lambda>order. (Truck.truck_id truck, Order.order_id order))
                                (filter (\<lambda>order. (Truck.truck_id truck, Order.order_id order)
                                                  \<in> set x_vars) order_list),
                    con_upper = 1\<rparr>)
                truck_list
      in (\<lparr>prob_name = ''Truck_Order_Assignment_Dispo'', sense = LpMaximize,
           objective = objective_components,
           constraints = order_constraints @ truck_constraints\<rparr>, x_vars))"

subsection \<open>The solver\<close>

text \<open>
  The solver is an external program: from a problem it returns a status and a value
  (\<^verbatim>\<open>varValue\<close>) for every variable. What the program relies on is its contract:
  when the status is optimal, every binary variable has value 0 or 1 and every
  constraint of the problem holds (\<open>is_solution\<close>). The statuses are the five that
  PuLP defines; it defines no \<^verbatim>\<open>LpStatusFeasible\<close>.
\<close>

datatype lp_status =
    LpStatusOptimal | LpStatusNotSolved | LpStatusInfeasible | LpStatusUnbounded
  | LpStatusUndefined

type_synonym valuation = "pair_key \<Rightarrow> real"

definition is_solution :: "lp_problem \<Rightarrow> pair_key list \<Rightarrow> valuation \<Rightarrow> bool" where
  "is_solution prob x_vars val \<longleftrightarrow>
     list_all (\<lambda>k. val k = 0 \<or> val k = 1) x_vars \<and>
     list_all (\<lambda>c. sum_list (map val (con_sum c)) \<le> con_upper c) (constraints prob)"

definition objective_value :: "lp_problem \<Rightarrow> valuation \<Rightarrow> real" where
  "objective_value prob val = sum_list (map (\<lambda>(c, k). c * val k) (objective prob))"

section \<open>dispo.py: extracting the results\<close>

record detail =
  lkw_id :: string
  auftrag_id :: string
  anfahrt_dist_km :: real
  transport_dist_km :: real
  gesamtdistanz_fuer_auftrag_km :: real
  ladebeginn_h :: pyfloat
  ladeende_h :: pyfloat
  entladung_ende_h :: pyfloat
  auftrag_prio_original :: int
  auftrag_prio_gewicht :: int
  auftrag_gewicht_kg :: real
  lkw_kapazitaet_kg :: real
  lkw_verfuegbar_bis_h :: real

text \<open>
  The value of \<open>truck_utilization\<close> for a truck id: the assigned order and its detail,
  both \<^verbatim>\<open>None\<close> at the start.
\<close>

type_synonym utilization = "(string \<times> (string option \<times> detail option)) list"

text \<open>
  \<^verbatim>\<open>next((x for x in xs if P(x)), None)\<close>, as the position of the object found:
  the class \<open>Order\<close> has no \<^verbatim>\<open>__eq__\<close>, so \<^verbatim>\<open>in\<close> and \<^verbatim>\<open>remove\<close>
  on the list of unassigned orders compare identities, which are positions of
  \<open>order_list\<close> here.
\<close>

fun first_index :: "('a \<Rightarrow> bool) \<Rightarrow> 'a list \<Rightarrow> nat option" where
  "first_index P [] = None"
| "first_index P (x # xs) =
     (if P x then Some 0 else map_option Suc (first_index P xs))"

record extract_state =
  assigned_orders_details :: "detail list"
  unassigned_orders_obj :: "nat list"
  truck_utilization :: utilization
  total_distance_final_km :: real

text \<open>The body of the loop over the active assignments.\<close>

definition extract_step ::
    "Truck list \<Rightarrow> Order list \<Rightarrow> pairs \<Rightarrow> extract_state \<Rightarrow> pair_key \<Rightarrow> extract_state" where
  "extract_step truck_list order_list permissible_pairs_with_values s key =
     (case (map_of permissible_pairs_with_values key,
            find (\<lambda>t. Truck.truck_id t = fst key) truck_list,
            first_index (\<lambda>o'. Order.order_id o' = snd key) order_list) of
        (Some values_info, Some truck_obj, Some order_ix) \<Rightarrow>
          let order_obj = order_list ! order_ix;
              detail =
                \<lparr>lkw_id = fst key,
                 auftrag_id = snd key,
                 anfahrt_dist_km = distanz_anfahrt values_info,
                 transport_dist_km = distanz_transport values_info,
                 gesamtdistanz_fuer_auftrag_km = distanz_gesamt_fuer_auftrag values_info,
                 ladebeginn_h = ladebeginn_calc_h values_info,
                 ladeende_h = ladeende_calc_h values_info,
                 entladung_ende_h = entladung_ende_calc_h values_info,
                 auftrag_prio_original = priority order_obj,
                 auftrag_prio_gewicht = prio_gewicht values_info,
                 auftrag_gewicht_kg = weight_kg order_obj,
                 lkw_kapazitaet_kg = capacity_kg truck_obj,
                 lkw_verfuegbar_bis_h = available_until_h truck_obj\<rparr>
          in \<lparr>assigned_orders_details = assigned_orders_details s @ [detail],
              unassigned_orders_obj = remove1 order_ix (unassigned_orders_obj s),
              truck_utilization =
                AList.update (fst key) (Some (snd key), Some detail) (truck_utilization s),
              total_distance_final_km =
                total_distance_final_km s + distanz_gesamt_fuer_auftrag values_info\<rparr>
      | _ \<Rightarrow> s)"

text \<open>
  Of the console output, the lines that report the totals are kept; the lines that only
  format an entry of the returned lists are left out.

  The test \<^verbatim>\<open>status == pulp.LpStatusOptimal or status == pulp.LpStatusFeasible\<close>
  evaluates its second operand whenever the first comparison is false. PuLP has no
  attribute \<^verbatim>\<open>LpStatusFeasible\<close>, so for every status but the optimal one the call
  raises \<^verbatim>\<open>AttributeError\<close> there, before anything is printed or returned; the
  branches of the source for the other statuses are never reached.
\<close>

definition extract_and_show_results ::
    "world \<Rightarrow> lp_problem \<Rightarrow> pair_key list \<times> valuation \<Rightarrow> Truck list \<Rightarrow> Order list \<Rightarrow> pairs \<Rightarrow>
     lp_status \<Rightarrow> error + ((detail list \<times> Order list \<times> utilization) \<times> world)" where
  "extract_and_show_results w prob_obj x_variables_dict truck_list order_list
       permissible_pairs_with_values status =
     (let s0 = \<lparr>assigned_orders_details = [],
                unassigned_orders_obj = [0..<length order_list],
                truck_utilization =
                  foldl (\<lambda>d truck. AList.update (Truck.truck_id truck) (None, None) d)
                    [] truck_list,
                total_distance_final_km = 0\<rparr>
      in if status = LpStatusOptimal then
           let total_objective_value =
                 (if objective prob_obj \<noteq> []
                  then objective_value prob_obj (snd x_variables_dict) else 0);
               active_assignments_keys =
                 filter (\<lambda>key_tuple. snd x_variables_dict key_tuple > 0.5)
                   (fst x_variables_dict);
               number_of_assigned_orders = length active_assignments_keys;
               s = foldl (extract_step truck_list order_list permissible_pairs_with_values)
                     s0 active_assignments_keys;
               s1 = s\<lparr>assigned_orders_details :=
                        sort_key (\<lambda>x. (auftrag_prio_original x, lkw_id x))
                          (assigned_orders_details s)\<rparr>;
               out = [Objective_value total_objective_value,
                      Assignment_count number_of_assigned_orders] @
                     (if assigned_orders_details s1 \<noteq> [] then
                        [Total_distance (total_distance_final_km s1),
                         Average_distance
                           (if number_of_assigned_orders > 0
                            then total_distance_final_km s1 / of_nat number_of_assigned_orders
                            else 0)]
                      else []);
               unassigned_sorted =
                 sort_key (\<lambda>i. (priority (order_list ! i), Order.order_id (order_list ! i)))
                   (unassigned_orders_obj s1)
           in Inr ((assigned_orders_details s1, map (\<lambda>i. order_list ! i) unassigned_sorted,
                    truck_utilization s1),
                   w\<lparr>stdout := stdout w @ out\<rparr>)
         else Inl AttributeError)"

section \<open>_archive/claude-2.py: entities\<close>

text \<open>
  The archived variant with the greedy strategies has its own classes \<open>Truck\<close> and
  \<open>Order\<close> and its own \<open>calculate_distance\<close>; they carry the suffix 2 here. The
  field \<^verbatim>\<open>value\<close> of an order is \<open>order_value\<close>, and the field
  \<^verbatim>\<open>assignment_time\<close> of an assignment (the wall clock) is left out.
\<close>

datatype Priority = URGENT | HIGH | NORMAL | LOW

datatype TruckType = KLEIN | STANDARD | GROSS | SPEZIAL

definition DISTANCE_WEIGHT :: real where "DISTANCE_WEIGHT = 1.0"
definition PRIORITY_WEIGHT :: real where "PRIORITY_WEIGHT = 0.8"
definition CAPACITY_WEIGHT :: real where "CAPACITY_WEIGHT = 0.6"
definition TIME_WEIGHT :: real where "TIME_WEIGHT = 0.4"

record Truck2 =
  truck_id :: string
  lat :: real
  lon :: real
  capacity :: real
  current_load :: real
  truck_type :: TruckType
  driver_name :: string
  max_driving_time :: real
  cost_per_km :: real

record Order2 =
  order_id :: string
  pickup_lat :: real
  pickup_lon :: real
  delivery_lat :: real
  delivery_lon :: real
  volume :: real
  priority :: Priority
  customer :: string
  deadline_hours :: real
  order_value :: real
  assigned_truck :: "string option"

record Assignment =
  truck_id :: string
  order_id :: string
  distance_km :: real
  estimated_duration :: real
  total_cost :: real
  score :: real

text \<open>\<^verbatim>\<open>__post_init__\<close>: the validation every constructed object has passed.\<close>

definition Truck2_post_init :: "Truck2 \<Rightarrow> error + Truck2" where
  "Truck2_post_init t =
     (if capacity t \<le> 0 then Inl ValueError
      else if current_load t < 0 then Inl ValueError
      else if current_load t > capacity t then Inl ValueError
      else Inr t)"

definition Order2_post_init :: "Order2 \<Rightarrow> error + Order2" where
  "Order2_post_init o' =
     (if volume o' \<le> 0 then Inl ValueError
      else if deadline_hours o' \<le> 0 then Inl ValueError
      else Inr o')"

definition available_capacity :: "Truck2 \<Rightarrow> real" where
  "available_capacity t = fl (capacity t - current_load t)"

definition position :: "Truck2 \<Rightarrow> point" where
  "position t = (lat t, lon t)"

definition utilization_percent :: "Truck2 \<Rightarrow> real" where
  "utilization_percent t = (if capacity t > 0 then (current_load t / capacity t) * 100 else 0)"

definition can_handle_order :: "Truck2 \<Rightarrow> Order2 \<Rightarrow> bool" where
  "can_handle_order t order \<longleftrightarrow> volume order \<le> available_capacity t"

definition pickup_position :: "Order2 \<Rightarrow> point" where
  "pickup_position o' = (pickup_lat o', pickup_lon o')"

definition delivery_position :: "Order2 \<Rightarrow> point" where
  "delivery_position o' = (delivery_lat o', delivery_lon o')"

fun priority_values :: "Priority \<Rightarrow> real" where
  "priority_values URGENT = 0.1"
| "priority_values HIGH = 0.3"
| "priority_values NORMAL = 1.0"
| "priority_values LOW = 2.0"

definition priority_score :: "Order2 \<Rightarrow> real" where
  "priority_score o' = priority_values (Order2.priority o')"

definition is_assigned :: "Order2 \<Rightarrow> bool" where
  "is_assigned o' \<longleftrightarrow> assigned_truck o' \<noteq> None"

section \<open>_archive/claude-2.py: helper functions\<close>

text \<open>
  The haversine formula without rounding. The source wraps the computation in
  \<^verbatim>\<open>try\<close> and returns infinity when it raises; the only operations that can
  raise on numbers are \<^verbatim>\<open>math.sqrt\<close> and \<^verbatim>\<open>math.asin\<close> outside their
  domains, which lemma \<open>haversine_domain\<close> excludes, so that branch is not modelled.
\<close>

definition calculate_distance2 :: "point \<Rightarrow> point \<Rightarrow> real" where
  "calculate_distance2 pos1 pos2 =
     (let lat1 = radians (fst pos1); lon1 = radians (snd pos1);
          lat2 = radians (fst pos2); lon2 = radians (snd pos2);
          dlat = lat2 - lat1;
          dlon = lon2 - lon1;
          a = (sin (dlat / 2))\<^sup>2 + cos lat1 * cos lat2 * (sin (dlon / 2))\<^sup>2;
          c = 2 * arcsin (sqrt a);
          radius = 6371
      in radius * c)"

definition estimate_travel_time :: "real \<Rightarrow> real \<Rightarrow> real" where
  "estimate_travel_time dist_km avg_speed_kmh =
     (if avg_speed_kmh > 0 then dist_km / avg_speed_kmh else 0)"

record score_details =
  det_distance :: real
  det_priority :: real
  det_capacity :: real
  det_time :: real
  raw_distance_km :: real
  travel_time_hours :: real

text \<open>
  \<open>calculate_assignment_score\<close>; a float division by zero raises
  \<^verbatim>\<open>ZeroDivisionError\<close>. The travel time is estimated with the default speed 50.
\<close>

definition calculate_assignment_score ::
    "Truck2 \<Rightarrow> Order2 \<Rightarrow> error + (real \<times> score_details)" where
  "calculate_assignment_score truck order =
     (let distance = calculate_distance2 (position truck) (pickup_position order);
          distance_score = distance * DISTANCE_WEIGHT;
          priority_score' = priority_score order * PRIORITY_WEIGHT
      in if capacity truck = 0 then Inl ZeroDivisionError
         else
           let capacity_utilization = volume order / capacity truck;
               capacity_score = (1.0 - capacity_utilization) * CAPACITY_WEIGHT;
               travel_time = estimate_travel_time distance 50.0
           in if deadline_hours order = 0 then Inl ZeroDivisionError
              else
                let time_pressure = max 0 (travel_time / deadline_hours order) * TIME_WEIGHT;
                    total_score = distance_score + priority_score' + capacity_score + time_pressure
                in Inr (total_score,
                        \<lparr>det_distance = distance_score,
                         det_priority = priority_score',
                         det_capacity = capacity_score,
                         det_time = time_pressure,
                         raw_distance_km = distance,
                         travel_time_hours = travel_time\<rparr>))"

section \<open>_archive/claude-2.py: the greedy strategies\<close>

text \<open>
  The strategies mutate the objects they are given: a truck's \<open>current_load\<close>, an
  order's \<open>assigned_truck\<close>. The two lists of objects are therefore part of the state,
  a reference to an object is its position in its list, and an update is \<open>xs[i := v]\<close>
  (the entries of a list are taken to be different objects). The state at the end is
  what the caller sees: the returned assignments, the returned list of unassigned
  orders, and the mutated trucks and orders.
\<close>

record strategy_state =
  trucks :: "Truck2 list"
  orders :: "Order2 list"
  available_orders :: "nat list"
  assignments :: "Assignment list"

text \<open>
  The best candidate found so far: \<^verbatim>\<open>None\<close> stands for the initial
  \<^verbatim>\<open>(None, inf, None)\<close>, against which every score is smaller.
\<close>

type_synonym best = "(nat \<times> real \<times> score_details) option"

definition score_improves :: "real \<Rightarrow> best \<Rightarrow> bool" where
  "score_improves sc b = (case b of None \<Rightarrow> True | Some (_, best_score, _) \<Rightarrow> sc < best_score)"

text \<open>
  \<^verbatim>\<open>list.remove(x)\<close> on a list of references: the first entry whose object equals
  \<open>x\<close> goes (a dataclass compares by fields); \<^verbatim>\<open>ValueError\<close> when there is none.
\<close>

fun list_remove :: "Order2 list \<Rightarrow> Order2 \<Rightarrow> nat list \<Rightarrow> error + nat list" where
  "list_remove os x [] = Inl ValueError"
| "list_remove os x (j # js) =
     (if os ! j = x then Inr js
      else case list_remove os x js of Inl e \<Rightarrow> Inl e | Inr js' \<Rightarrow> Inr (j # js'))"

text \<open>The commit at the end of a round, the same in both strategies.\<close>

definition commit :: "strategy_state \<Rightarrow> nat \<Rightarrow> nat \<Rightarrow> real \<Rightarrow> score_details \<Rightarrow>
    error + strategy_state" where
  "commit s ti oi best_score best_details =
     (let truck = trucks s ! ti;
          order = orders s ! oi;
          total_distance = raw_distance_km best_details;
          travel_time = travel_time_hours best_details;
          total_cost' = total_distance * cost_per_km truck;
          assignment =
            \<lparr>Assignment.truck_id = Truck2.truck_id truck,
             order_id = Order2.order_id order,
             distance_km = total_distance,
             estimated_duration = travel_time,
             total_cost = total_cost',
             score = best_score\<rparr>;
          order' = order\<lparr>assigned_truck := Some (Truck2.truck_id truck)\<rparr>;
          orders' = (orders s)[oi := order'];
          trucks' =
            (trucks s)[ti := truck\<lparr>current_load := fl (current_load truck + volume order')\<rparr>]
      in case list_remove orders' order' (available_orders s) of
           Inl e \<Rightarrow> Inl e
         | Inr available' \<Rightarrow>
             Inr \<lparr>trucks = trucks', orders = orders', available_orders = available',
                  assignments = assignments s @ [assignment]\<rparr>)"

subsection \<open>GreedyNearestStrategy\<close>

fun best_order_loop :: "Truck2 \<Rightarrow> Order2 list \<Rightarrow> nat list \<Rightarrow> best \<Rightarrow> error + best" where
  "best_order_loop truck os [] b = Inr b"
| "best_order_loop truck os (oi # rest) b =
     (if can_handle_order truck (os ! oi) then
        (case calculate_assignment_score truck (os ! oi) of
           Inl e \<Rightarrow> Inl e
         | Inr (sc, details) \<Rightarrow>
             best_order_loop truck os rest
               (if score_improves sc b then Some (oi, sc, details) else b))
      else best_order_loop truck os rest b)"

fun greedy_loop :: "nat list \<Rightarrow> strategy_state \<Rightarrow> error + strategy_state" where
  "greedy_loop [] s = Inr s"
| "greedy_loop (ti # rest) s =
     (case best_order_loop (trucks s ! ti) (orders s) (available_orders s) None of
        Inl e \<Rightarrow> Inl e
      | Inr None \<Rightarrow> greedy_loop rest s
      | Inr (Some (oi, best_score, best_details)) \<Rightarrow>
          (case commit s ti oi best_score best_details of
             Inl e \<Rightarrow> Inl e
           | Inr s' \<Rightarrow> greedy_loop rest s'))"

text \<open>
  \<^verbatim>\<open>sorted(trucks, key=available_capacity, reverse=True)\<close> is stable: trucks of
  equal capacity keep their order.
\<close>

definition GreedyNearestStrategy_assign ::
    "Truck2 list \<Rightarrow> Order2 list \<Rightarrow> error + strategy_state" where
  "GreedyNearestStrategy_assign ts os =
     (let available = filter (\<lambda>i. \<not> is_assigned (os ! i)) [0..<length os];
          sorted_trucks = sort_key (\<lambda>i. - available_capacity (ts ! i)) [0..<length ts]
      in greedy_loop sorted_trucks
           \<lparr>trucks = ts, orders = os, available_orders = available, assignments = []\<rparr>)"

subsection \<open>PriorityFirstStrategy\<close>

fun best_truck_loop :: "Truck2 list \<Rightarrow> Order2 \<Rightarrow> nat list \<Rightarrow> best \<Rightarrow> error + best" where
  "best_truck_loop ts order [] b = Inr b"
| "best_truck_loop ts order (ti # rest) b =
     (if can_handle_order (ts ! ti) order then
        (case calculate_assignment_score (ts ! ti) order of
           Inl e \<Rightarrow> Inl e
         | Inr (sc, details) \<Rightarrow>
             best_truck_loop ts order rest
               (if score_improves sc b then Some (ti, sc, details) else b))
      else best_truck_loop ts order rest b)"

fun priority_loop :: "nat list \<Rightarrow> strategy_state \<Rightarrow> error + strategy_state" where
  "priority_loop [] s = Inr s"
| "priority_loop (oi # rest) s =
     (case best_truck_loop (trucks s) (orders s ! oi) [0..<length (trucks s)] None of
        Inl e \<Rightarrow> Inl e
      | Inr None \<Rightarrow> priority_loop rest s
      | Inr (Some (ti, best_score, best_details)) \<Rightarrow>
          (case commit s ti oi best_score best_details of
             Inl e \<Rightarrow> Inl e
           | Inr s' \<Rightarrow> priority_loop rest s'))"

text \<open>\<^verbatim>\<open>priority_order.index(o.priority)\<close>.\<close>

fun priority_order_index :: "Priority \<Rightarrow> nat" where
  "priority_order_index URGENT = 0"
| "priority_order_index HIGH = 1"
| "priority_order_index NORMAL = 2"
| "priority_order_index LOW = 3"

definition PriorityFirstStrategy_assign ::
    "Truck2 list \<Rightarrow> Order2 list \<Rightarrow> error + strategy_state" where
  "PriorityFirstStrategy_assign ts os =
     (let available = filter (\<lambda>i. \<not> is_assigned (os ! i)) [0..<length os];
          sorted_orders =
            sort_key (\<lambda>i. priority_order_index (Order2.priority (os ! i))) available
      in priority_loop sorted_orders
           \<lparr>trucks = ts, orders = os, available_orders = available, assignments = []\<rparr>)"

text \<open>The two values a strategy returns, read from the final state.\<close>

definition returned :: "strategy_state \<Rightarrow> Assignment list \<times> Order2 list" where
  "returned s = (assignments s, map (\<lambda>i. orders s ! i) (available_orders s))"

section \<open>_archive/claude-2.py: analysis of a result\<close>

record priority_stat =
  stat_total :: nat
  stat_assigned :: nat
  stat_rate :: real

record analysis =
  total_assignments :: nat
  total_orders :: nat
  unassigned_orders :: nat
  assignment_rate :: real
  avg_distance_km :: real
  min_distance_km :: real
  max_distance_km :: real
  total_distance_km :: real
  total_cost_euro :: real
  avg_cost_euro :: real
  assigned_volume_tons :: real
  total_volume_tons :: real
  volume_assignment_rate :: real
  avg_truck_utilization :: real
  priority_statistics :: "(Priority \<times> priority_stat) list"

text \<open>
  \<^verbatim>\<open>sum(next(o.volume for o in orders if o.order_id == a.order_id) for a in assignments)\<close>:
  when no order has the id, \<^verbatim>\<open>next\<close> raises \<^verbatim>\<open>StopIteration\<close> inside the
  generator, which surfaces as \<^verbatim>\<open>RuntimeError\<close>.
\<close>

fun assigned_volume_sum :: "Order2 list \<Rightarrow> Assignment list \<Rightarrow> error + real" where
  "assigned_volume_sum os [] = Inr 0"
| "assigned_volume_sum os (a # as) =
     (case find (\<lambda>o'. Order2.order_id o' = Assignment.order_id a) os of
        None \<Rightarrow> Inl RuntimeError
      | Some o' \<Rightarrow>
          (case assigned_volume_sum os as of
             Inl e \<Rightarrow> Inl e
           | Inr v \<Rightarrow> Inr (volume o' + v)))"

definition analyze_assignments ::
    "Assignment list \<Rightarrow> Truck2 list \<Rightarrow> Order2 list \<Rightarrow> Order2 list \<Rightarrow> error + analysis" where
  "analyze_assignments as ts os unassigned =
     (let distances = map distance_km as;
          costs = map total_cost as
      in case assigned_volume_sum os as of
           Inl e \<Rightarrow> Inl e
         | Inr assigned_volume \<Rightarrow>
             let total_volume = sum_list (map volume os);
                 truck_utilizations = map utilization_percent ts
             in Inr
               \<lparr>total_assignments = length as,
                total_orders = length os,
                unassigned_orders = length unassigned,
                assignment_rate =
                  (if os \<noteq> [] then (of_nat (length as) / of_nat (length os)) * 100 else 0),
                avg_distance_km =
                  (if as \<noteq> [] then sum_list distances / of_nat (length distances) else 0),
                min_distance_km = (if as \<noteq> [] then fold min (tl distances) (hd distances) else 0),
                max_distance_km = (if as \<noteq> [] then fold max (tl distances) (hd distances) else 0),
                total_distance_km = (if as \<noteq> [] then sum_list distances else 0),
                total_cost_euro = (if as \<noteq> [] then sum_list costs else 0),
                avg_cost_euro = (if as \<noteq> [] then sum_list costs / of_nat (length costs) else 0),
                assigned_volume_tons = assigned_volume,
                total_volume_tons = total_volume,
                volume_assignment_rate =
                  (if total_volume \<noteq> 0 then (assigned_volume / total_volume) * 100 else 0),
                avg_truck_utilization =
                  (if truck_utilizations \<noteq> []
                   then sum_list truck_utilizations / of_nat (length truck_utilizations) else 0),
                priority_statistics =
                  map (\<lambda>p.
                         let priority_orders = filter (\<lambda>o'. Order2.priority o' = p) os;
                             assigned_priority_orders = filter is_assigned priority_orders
                         in (p, \<lparr>stat_total = length priority_orders,
                                 stat_assigned = length assigned_priority_orders,
                                 stat_rate =
                                   (if priority_orders \<noteq> []
                                    then (of_nat (length assigned_priority_orders) /
                                          of_nat (length priority_orders)) * 100
                                    else 0)\<rparr>))
                      [URGENT, HIGH, NORMAL, LOW]\<rparr>)"

section \<open>Auxiliary notions for the proofs\<close>

text \<open>
  Invariants of the greedy strategies, relative to the lists \<open>ts\<close> and \<open>os\<close> they were
  started on: a strategy changes nothing but the load of a truck and the assigned truck
  of an order; every truck has a positive capacity and a load that is not negative;
  every order still passes its \<open>__post_init__\<close> validation; the available orders are
  different, existing, unassigned orders.
\<close>

definition frame :: "Truck2 list \<Rightarrow> Order2 list \<Rightarrow> strategy_state \<Rightarrow> bool" where
  "frame ts os s \<longleftrightarrow>
     length (trucks s) = length ts \<and> length (orders s) = length os \<and>
     (\<forall>i < length ts. trucks s ! i = (ts ! i)\<lparr>current_load := current_load (trucks s ! i)\<rparr>) \<and>
     (\<forall>j < length os. orders s ! j = (os ! j)\<lparr>assigned_truck := assigned_truck (orders s ! j)\<rparr>)"

definition loads_ok :: "strategy_state \<Rightarrow> bool" where
  "loads_ok s \<longleftrightarrow>
     (\<forall>i < length (trucks s). 0 < capacity (trucks s ! i) \<and> 0 \<le> current_load (trucks s ! i))"

definition orders_ok :: "strategy_state \<Rightarrow> bool" where
  "orders_ok s \<longleftrightarrow> (\<forall>j < length (orders s). Order2_post_init (orders s ! j) = Inr (orders s ! j))"

definition avail_ok :: "strategy_state \<Rightarrow> bool" where
  "avail_ok s \<longleftrightarrow>
     distinct (available_orders s) \<and>
     (\<forall>j \<in> set (available_orders s). j < length (orders s) \<and> \<not> is_assigned (orders s ! j))"

definition strategy_inv :: "Truck2 list \<Rightarrow> Order2 list \<Rightarrow> strategy_state \<Rightarrow> bool" where
  "strategy_inv ts os s \<longleftrightarrow> frame ts os s \<and> loads_ok s \<and> orders_ok s \<and> avail_ok s"

text \<open>Every assignment is of an order to a truck whose capacity is at least its volume.\<close>

definition assigned_ok :: "Truck2 list \<Rightarrow> Order2 list \<Rightarrow> Assignment list \<Rightarrow> bool" where
  "assigned_ok ts os as \<longleftrightarrow>
     (\<forall>a \<in> set as. \<exists>ti < length ts. \<exists>oi < length os.
        Assignment.truck_id a = Truck2.truck_id (ts ! ti) \<and>
        Assignment.order_id a = Order2.order_id (os ! oi) \<and>
        volume (os ! oi) \<le> capacity (ts ! ti))"

text \<open>What the search for the best candidate returns: nothing, or a candidate that can
  take the order.\<close>

definition good_truck :: "Truck2 list \<Rightarrow> Order2 \<Rightarrow> best \<Rightarrow> bool" where
  "good_truck ts order b \<longleftrightarrow>
     (case b of None \<Rightarrow> True
      | Some (ti, _, _) \<Rightarrow> ti < length ts \<and> can_handle_order (ts ! ti) order)"

definition good_order :: "Truck2 \<Rightarrow> Order2 list \<Rightarrow> nat set \<Rightarrow> best \<Rightarrow> bool" where
  "good_order truck os av b \<longleftrightarrow>
     (case b of None \<Rightarrow> True
      | Some (oi, _, _) \<Rightarrow> oi \<in> av \<and> can_handle_order truck (os ! oi))"

text \<open>Every stored value comes from the check of some truck and order with the ids of its key.\<close>

definition from_check :: "constants \<Rightarrow> Truck list \<Rightarrow> Order list \<Rightarrow> pairs \<Rightarrow> bool" where
  "from_check g ts os pp \<longleftrightarrow>
     (\<forall>k v. map_of pp k = Some v \<longrightarrow>
        (\<exists>t \<in> set ts. \<exists>o' \<in> set os.
           k = (Truck.truck_id t, Order.order_id o') \<and> check_pair g t o' = Some v))"

text \<open>The keys for which the loop of the extraction adds a detail.\<close>

definition extracted :: "Truck list \<Rightarrow> Order list \<Rightarrow> pairs \<Rightarrow> pair_key \<Rightarrow> bool" where
  "extracted ts os pp k \<longleftrightarrow>
     map_of pp k \<noteq> None \<and> find (\<lambda>t. Truck.truck_id t = fst k) ts \<noteq> None \<and>
     first_index (\<lambda>o'. Order.order_id o' = snd k) os \<noteq> None"

section \<open>Example inputs\<close>

text \<open>
  A truck and two orders for dispo.py, the second order heavier than the truck's
  capacity, and a solution of their model. For the archive, the first truck of its demo
  data and three of its orders, with the pickups moved to the position of the truck: the
  distance of a point to itself is the one value of the haversine formula that
  simplification computes.
\<close>

definition world0 :: world where
  "world0 = \<lparr>module_globals = module_constants, stdout = []\<rparr>"

definition lkw1 :: Truck where
  "lkw1 = \<lparr>Truck.truck_id = ''LKW1'', location = (52.5, 13.4), capacity_kg = 20000,
           available_from_h = 7, available_until_h = 18\<rparr>"

definition auf1 :: Order where
  "auf1 = \<lparr>Order.order_id = ''AUF1'', loading_site = (52.5, 13.4), unloading_site = (52.5, 13.4),
           weight_kg = 5000, loading_window_early_h = 8, loading_window_late_h = 12,
           loading_duration_h = 1, unloading_duration_h = 1, priority = 1\<rparr>"

definition auf2 :: Order where
  "auf2 = \<lparr>Order.order_id = ''AUF2'', loading_site = (52.5, 13.4), unloading_site = (52.5, 13.4),
           weight_kg = 25000, loading_window_early_h = 8, loading_window_late_h = 12,
           loading_duration_h = 1, unloading_duration_h = 1, priority = 2\<rparr>"

definition val1 :: valuation where
  "val1 k = (if k = (''LKW1'', ''AUF1'') then 1 else 0)"

definition lkw001 :: Truck2 where
  "lkw001 = \<lparr>Truck2.truck_id = ''LKW001'', lat = 52.52, lon = 13.405, capacity = 25,
             current_load = 0, truck_type = STANDARD, driver_name = ''Hans Mueller'',
             max_driving_time = 8, cost_per_km = 1.2\<rparr>"

definition auf001 :: Order2 where
  "auf001 = \<lparr>Order2.order_id = ''AUF001'', pickup_lat = 52.52, pickup_lon = 13.405,
             delivery_lat = 52.54, delivery_lon = 13.36, volume = 8.5, priority = HIGH,
             customer = ''MegaCorp GmbH'', deadline_hours = 12, order_value = 1000,
             assigned_truck = None\<rparr>"

definition auf004 :: Order2 where
  "auf004 = \<lparr>Order2.order_id = ''AUF004'', pickup_lat = 52.52, pickup_lon = 13.405,
             delivery_lat = 52.53, delivery_lon = 13.42, volume = 6.8, priority = URGENT,
             customer = ''QuickServ Express'', deadline_hours = 6, order_value = 1000,
             assigned_truck = None\<rparr>"

text \<open>
  A truck and two orders whose capacity and volumes are the doubles that the literals
  10.6, 8.3 and 2.3 denote.
\<close>

definition lkw106 :: Truck2 where
  "lkw106 = \<lparr>Truck2.truck_id = ''LKW106'', lat = 52.52, lon = 13.405,
             capacity = 5967269506265907 / 562949953421312,
             current_load = 0, truck_type = STANDARD, driver_name = ''Hans Mueller'',
             max_driving_time = 8, cost_per_km = 1.2\<rparr>"

definition auf83 :: Order2 where
  "auf83 = \<lparr>Order2.order_id = ''AUF83'', pickup_lat = 52.52, pickup_lon = 13.405,
            delivery_lat = 52.54, delivery_lon = 13.36,
            volume = 2336242306698445 / 281474976710656, priority = HIGH,
            customer = ''MegaCorp GmbH'', deadline_hours = 12, order_value = 1000,
            assigned_truck = None\<rparr>"

definition auf23 :: Order2 where
  "auf23 = \<lparr>Order2.order_id = ''AUF23'', pickup_lat = 52.52, pickup_lon = 13.405,
            delivery_lat = 52.53, delivery_lon = 13.42,
            volume = 2589569785738035 / 1125899906842624, priority = URGENT,
            customer = ''QuickServ Express'', deadline_hours = 6, order_value = 1000,
            assigned_truck = None\<rparr>"

definition auf008 :: Order2 where
  "auf008 = \<lparr>Order2.order_id = ''AUF008'', pickup_lat = 52.52, pickup_lon = 13.405,
             delivery_lat = 52.515, delivery_lon = 13.395, volume = 25.8, priority = NORMAL,
             customer = ''HeavyGoods Transport'', deadline_hours = 30, order_value = 1000,
             assigned_truck = None\<rparr>"

section \<open>Rounding to a double\<close>

lemma rne_of_int: "rne (of_int k) = k"
  by (simp add: rne_def)

lemma rne_bounds: "\<lfloor>y\<rfloor> \<le> rne y" "rne y \<le> \<lfloor>y\<rfloor> + 1"
  by (simp_all add: rne_def Let_def)

lemma rne_mono:
  assumes "x \<le> y"
  shows "rne x \<le> rne y"
proof (cases "\<lfloor>x\<rfloor> = \<lfloor>y\<rfloor>")
  case True
  then have "x - of_int \<lfloor>x\<rfloor> \<le> y - of_int \<lfloor>y\<rfloor>"
    using assms by simp
  then show ?thesis
    using True by (auto simp: rne_def Let_def)
next
  case False
  then have "\<lfloor>x\<rfloor> + 1 \<le> \<lfloor>y\<rfloor>"
    using floor_mono [OF assms] by simp
  then show ?thesis
    using rne_bounds(2) [of x] rne_bounds(1) [of y] by linarith
qed

lemma ulp_pos: "0 < ulp x"
  by (simp add: ulp_def)

lemma fl_nonneg: "0 \<le> x \<Longrightarrow> 0 \<le> fl x"
  using rne_mono [of 0 "x / ulp x"] ulp_pos [of x]
  by (simp add: fl_def rne_of_int [of 0, simplified])

lemma fl_nonpos: "x \<le> 0 \<Longrightarrow> fl x \<le> 0"
  using rne_mono [of "x / ulp x" 0] ulp_pos [of x]
  by (simp add: fl_def rne_of_int [of 0, simplified] mult_le_0_iff divide_le_0_iff)

lemma log2_bounds:
  assumes "0 < x"
  shows "2 powr of_int \<lfloor>log 2 x\<rfloor> \<le> x" and "x < 2 powr of_int (\<lfloor>log 2 x\<rfloor> + 1)"
proof -
  have "of_int \<lfloor>log 2 x\<rfloor> \<le> log 2 x" by simp
  then show "2 powr of_int \<lfloor>log 2 x\<rfloor> \<le> x"
    using assms by (simp add: powr_le_iff)
  have "log 2 x < of_int (\<lfloor>log 2 x\<rfloor> + 1)" by linarith
  then show "x < 2 powr of_int (\<lfloor>log 2 x\<rfloor> + 1)"
    using assms less_powr_iff [of 2 x "of_int (\<lfloor>log 2 x\<rfloor> + 1)"] by simp
qed

lemma binade_mono: "0 < x \<Longrightarrow> x \<le> y \<Longrightarrow> binade x \<le> binade y"
  unfolding binade_def by (intro max.mono floor_mono) simp_all

lemma below_next_binade:
  assumes "0 < x"
  shows "x < 2 powr of_int (binade x + 1)"
proof -
  have "x < 2 powr of_int (\<lfloor>log 2 x\<rfloor> + 1)"
    by (rule log2_bounds(2) [OF assms])
  also have "\<dots> \<le> 2 powr of_int (binade x + 1)"
    using assms by (simp add: binade_def)
  finally show ?thesis .
qed

lemma fl_below_next_binade:
  assumes "0 < x"
  shows "fl x \<le> 2 powr of_int (binade x + 1)"
proof -
  have "x / ulp x \<le> 2 powr of_int (binade x + 1) / ulp x"
    using below_next_binade [OF assms] ulp_pos [of x] by (simp add: divide_right_mono)
  also have "2 powr of_int (binade x + 1) / ulp x = 2 powr 53"
    unfolding ulp_def by (simp flip: powr_diff)
  also have "\<dots> = of_int (2 ^ 53)"
    by simp
  finally have "rne (x / ulp x) \<le> 2 ^ 53"
    using rne_mono [of "x / ulp x" "of_int (2 ^ 53)"] by (simp only: rne_of_int)
  then have "of_int (rne (x / ulp x)) * ulp x \<le> of_int (2 ^ 53) * ulp x"
    using ulp_pos [of x] by (simp only: mult_le_cancel_right_pos of_int_le_iff)
  also have "of_int (2 ^ 53) * ulp x = 2 powr of_int (binade x + 1)"
  proof -
    have "(2::real) powr 53 * 2 powr of_int (binade x - 52) = 2 powr (53 + of_int (binade x - 52))"
      by (rule powr_add [symmetric])
    also have "53 + of_int (binade x - 52) = (of_int (binade x + 1) :: real)"
      by simp
    finally show ?thesis
      by (simp add: ulp_def)
  qed
  finally show ?thesis
    using assms by (simp add: fl_def)
qed

text \<open>Rounding is monotone, so it never passes a double that bounds the exact value.\<close>

lemma fl_le_double:
  assumes "x \<le> c" and "0 \<le> c" and "fl c = c"
  shows "fl x \<le> c"
proof (cases "0 < x")
  case False
  then show ?thesis
    using fl_nonpos [of x] assms(2) by simp
next
  case True
  then have c: "0 < c" using assms(1) by simp
  show ?thesis
  proof (cases "binade x = binade c")
    case True
    then have u: "ulp c = ulp x" by (simp add: ulp_def)
    have ck: "c = of_int (rne (c / ulp x)) * ulp x"
      using assms(3) c by (simp add: fl_def u)
    have "x / ulp x \<le> c / ulp x"
      using assms(1) ulp_pos [of x] by (simp add: divide_right_mono)
    also have "c / ulp x = of_int (rne (c / ulp x))"
      using ck ulp_pos [of x] by (simp add: field_simps)
    finally have "rne (x / ulp x) \<le> rne (c / ulp x)"
      using rne_mono [of "x / ulp x" "of_int (rne (c / ulp x))"] by (simp only: rne_of_int)
    then have "of_int (rne (x / ulp x)) * ulp x \<le> of_int (rne (c / ulp x)) * ulp x"
      using ulp_pos [of x] by (simp only: mult_le_cancel_right_pos of_int_le_iff)
    then show ?thesis
      using ck \<open>0 < x\<close> by (simp add: fl_def)
  next
    case False
    then have lt: "binade x + 1 \<le> binade c"
      using binade_mono [OF \<open>0 < x\<close> assms(1)] by simp
    moreover have "- 1022 \<le> binade x"
      by (simp add: binade_def)
    ultimately have "binade c = \<lfloor>log 2 c\<rfloor>"
      using c by (simp add: binade_def max_def split: if_splits)
    then have "2 powr of_int (binade c) \<le> c"
      using log2_bounds(1) [OF c] by simp
    moreover have "2 powr of_int (binade x + 1) \<le> (2::real) powr of_int (binade c)"
      using lt by (simp only: powr_le_cancel_iff of_int_le_iff)
    ultimately show ?thesis
      using fl_below_next_binade [OF \<open>0 < x\<close>] by linarith
  qed
qed

text \<open>The rounding of a number between two powers of two, for computing with it.\<close>

lemma binade_eval:
  assumes "2 ^ k \<le> x" "x < 2 ^ Suc k"
  shows "binade x = int k"
proof -
  have x: "0 < x" using assms(1) by (rule less_le_trans [OF zero_less_power, rotated]) simp
  have "\<lfloor>log 2 x\<rfloor> = int k"
  proof (rule floor_unique)
    show "of_int (int k) \<le> log 2 x"
      using assms(1) x by (simp add: le_log_iff powr_realpow)
    show "log 2 x < of_int (int k) + 1"
      using assms(2) x by (simp add: log_less_iff powr_realpow powr_add)
  qed
  then show ?thesis using x by (simp add: binade_def)
qed

lemma fl_eval:
  assumes "2 ^ k \<le> x" "x < 2 ^ Suc k"
  shows "fl x = of_int (rne (x * 2 ^ 52 / 2 ^ k)) * 2 ^ k / 2 ^ 52"
proof -
  have x: "0 < x" using assms(1) by (rule less_le_trans [OF zero_less_power, rotated]) simp
  have u: "ulp x = 2 ^ k / 2 ^ 52"
    using binade_eval [OF assms] by (simp add: ulp_def powr_diff powr_realpow)
  show ?thesis using x by (simp add: fl_def u)
qed

section \<open>Feasibility analysis: the pairs kept\<close>

lemma check_pair_feasible: "check_pair g t o' \<noteq> None \<longleftrightarrow> feasible g t o'"
  by (simp add: check_pair_def feasible_def loadingStart_def loadingEnd_def unloadingEnd_def
      travelTime_def fle_def Let_def not_less)

lemma pair_step_keys:
  "fst ` set (pair_step g t o' pp) =
     (if feasible g t o' then insert (Truck.truck_id t, Order.order_id o') (fst ` set pp)
      else fst ` set pp)"
  using check_pair_feasible [of g t o']
  by (auto simp: pair_step_def dom_update split: option.splits)

lemma inner_loop_keys:
  "fst ` set (foldl (\<lambda>pp' order. pair_step g t order pp') pp os) =
     fst ` set pp \<union> {(Truck.truck_id t, Order.order_id o') |o'. o' \<in> set os \<and> feasible g t o'}"
  by (induction os arbitrary: pp) (auto simp: pair_step_keys)

lemma outer_loop_keys:
  "fst ` set (foldl (\<lambda>pp truck. foldl (\<lambda>pp' order. pair_step g truck order pp') pp os) pp ts) =
     fst ` set pp \<union>
     {(Truck.truck_id t, Order.order_id o') |t o'. t \<in> set ts \<and> o' \<in> set os \<and> feasible g t o'}"
proof (induction ts arbitrary: pp)
  case Nil
  show ?case by simp
next
  case (Cons t ts)
  show ?case
    unfolding foldl_Cons Cons.IH inner_loop_keys by auto
qed

lemma permissible_loop_keys:
  "fst ` set (permissible_loop g ts os) =
     {(Truck.truck_id t, Order.order_id o') |t o'. t \<in> set ts \<and> o' \<in> set os \<and> feasible g t o'}"
  by (simp add: permissible_loop_def outer_loop_keys)

lemma calculate_distance_same: "calculate_distance p p = 0"
  by (simp add: calculate_distance_def py_round_def Let_def)

lemma permissible_keys:
  "fst ` set (fst (determine_permissible_pairs_and_values w ts os)) =
     {(Truck.truck_id t, Order.order_id o') |t o'. t \<in> set ts \<and> o' \<in> set os \<and> feasible (module_globals w) t o'}"
  by (simp add: determine_permissible_pairs_and_values_def Let_def permissible_loop_keys)

text \<open>
  Claim C1. A pair of ids is a key of the map returned by
  \<open>determine_permissible_pairs_and_values\<close> exactly when some truck and some order of the
  lists with these ids are feasible: the weight is at most the capacity, the loading start
  \<open>max(available_from + travelTime(approach), window_early)\<close> is at most
  \<open>window_late - loading_duration + 0.01\<close>, and the end of unloading is at most
  \<open>available_until + 0.01\<close>. When the ids of the trucks and of the orders are unique,
  the pair of a truck and an order of the lists is kept exactly when it is feasible.
\<close>

theorem feasible_pairs_iff:
  "((tid, oid) \<in> fst ` set (fst (determine_permissible_pairs_and_values w truck_list order_list))
     \<longleftrightarrow> (\<exists>t \<in> set truck_list. \<exists>o' \<in> set order_list.
            Truck.truck_id t = tid \<and> Order.order_id o' = oid \<and> feasible (module_globals w) t o')) \<and>
   (distinct (map Truck.truck_id truck_list) \<longrightarrow> distinct (map Order.order_id order_list) \<longrightarrow>
      (\<forall>t \<in> set truck_list. \<forall>o' \<in> set order_list.
         (Truck.truck_id t, Order.order_id o')
            \<in> fst ` set (fst (determine_permissible_pairs_and_values w truck_list order_list))
         \<longleftrightarrow> feasible (module_globals w) t o'))"
proof (intro conjI impI ballI)
  show "(tid, oid) \<in> fst ` set (fst (determine_permissible_pairs_and_values w truck_list order_list))
     \<longleftrightarrow> (\<exists>t \<in> set truck_list. \<exists>o' \<in> set order_list.
            Truck.truck_id t = tid \<and> Order.order_id o' = oid \<and> feasible (module_globals w) t o')"
    unfolding permissible_keys by auto
next
  fix t o'
  assume d: "distinct (map Truck.truck_id truck_list)" "distinct (map Order.order_id order_list)"
    and m: "t \<in> set truck_list" "o' \<in> set order_list"
  have "t' = t" if "t' \<in> set truck_list" "Truck.truck_id t' = Truck.truck_id t" for t'
    using that d(1) m(1) by (meson distinct_map inj_onD)
  moreover have "o'' = o'" if "o'' \<in> set order_list" "Order.order_id o'' = Order.order_id o'" for o''
    using that d(2) m(2) by (meson distinct_map inj_onD)
  ultimately show "(Truck.truck_id t, Order.order_id o')
            \<in> fst ` set (fst (determine_permissible_pairs_and_values w truck_list order_list))
         \<longleftrightarrow> feasible (module_globals w) t o'"
    unfolding permissible_keys using m by auto
qed

lemma feasible_lkw1_auf1: "feasible module_constants lkw1 auf1"
  by (simp add: feasible_def loadingStart_def loadingEnd_def unloadingEnd_def travelTime_def
      calculate_travel_time_h_def module_constants_def lkw1_def auf1_def
      calculate_distance_same fle_def fmax_def)

lemma infeasible_lkw1_auf2: "\<not> feasible module_constants lkw1 auf2"
  by (simp add: feasible_def lkw1_def auf2_def)

theorem feasible_pairs_iff_witness:
  "(''LKW1'', ''AUF1'') \<in> fst ` set (fst (determine_permissible_pairs_and_values world0 [lkw1] [auf1, auf2])) \<and>
   (''LKW1'', ''AUF2'') \<notin> fst ` set (fst (determine_permissible_pairs_and_values world0 [lkw1] [auf1, auf2]))"
proof -
  have d: "distinct (map Truck.truck_id [lkw1])" "distinct (map Order.order_id [auf1, auf2])"
    by (simp_all add: auf1_def auf2_def)
  have g: "module_globals world0 = module_constants" by (simp add: world0_def)
  have i1: "Truck.truck_id lkw1 = ''LKW1''" "Order.order_id auf1 = ''AUF1''" "Order.order_id auf2 = ''AUF2''"
    by (simp_all add: lkw1_def auf1_def auf2_def)
  from feasible_pairs_iff [of "''LKW1''" "''AUF1''" world0 "[lkw1]" "[auf1, auf2]"] d
  have "\<forall>t \<in> set [lkw1]. \<forall>o' \<in> set [auf1, auf2].
         (Truck.truck_id t, Order.order_id o')
            \<in> fst ` set (fst (determine_permissible_pairs_and_values world0 [lkw1] [auf1, auf2]))
         \<longleftrightarrow> feasible (module_globals world0) t o'"
    by blast
  then show ?thesis
    using feasible_lkw1_auf1 infeasible_lkw1_auf2 by (simp add: g i1)
qed

lemma sin_half_sq: "(sin (x / 2))\<^sup>2 = (1 - cos x) / (2::real)"
  using cos_double_sin [of "x / 2"] by simp

lemma haversine_identity:
  "(sin ((l2 - l1) / 2))\<^sup>2 + cos l1 * cos l2 * (sin (d / 2))\<^sup>2 =
     (1 - ((1 + cos d) / 2 * cos (l2 - l1) + (1 - cos d) / 2 * (- cos (l2 + l1)))) / (2::real)"
proof -
  have "(1 - cos (l2 - l1)) / 2 + cos l1 * cos l2 * ((1 - cos d) / 2) =
        (1 - ((1 + cos d) / 2 * cos (l2 - l1) + (1 - cos d) / 2 * (- cos (l2 + l1)))) / (2::real)"
    unfolding cos_diff cos_add by (simp add: field_simps)
  then show ?thesis unfolding sin_half_sq .
qed

lemma convex_bound:
  fixes u v t :: real
  assumes "\<bar>u\<bar> \<le> 1" "\<bar>v\<bar> \<le> 1" "\<bar>t\<bar> \<le> 1"
  shows "\<bar>(1 + t) / 2 * u + (1 - t) / 2 * v\<bar> \<le> 1"
proof -
  have a: "0 \<le> (1 + t) / 2" "0 \<le> (1 - t) / 2" using assms by auto
  have "\<bar>(1 + t) / 2 * u + (1 - t) / 2 * v\<bar> \<le> \<bar>(1 + t) / 2 * u\<bar> + \<bar>(1 - t) / 2 * v\<bar>"
    by (rule abs_triangle_ineq)
  also have "\<dots> = (1 + t) / 2 * \<bar>u\<bar> + (1 - t) / 2 * \<bar>v\<bar>"
    using a by (simp add: abs_mult)
  also have "\<dots> \<le> (1 + t) / 2 * 1 + (1 - t) / 2 * 1"
    using a assms by (intro add_mono mult_left_mono) auto
  also have "\<dots> = 1" by (simp add: field_simps)
  finally show ?thesis .
qed

lemma haversine_domain:
  fixes l1 l2 d :: real
  defines "a \<equiv> (sin ((l2 - l1) / 2))\<^sup>2 + cos l1 * cos l2 * (sin (d / 2))\<^sup>2"
  shows "0 \<le> a \<and> a \<le> 1"
proof -
  have "\<bar>(1 + cos d) / 2 * cos (l2 - l1) + (1 - cos d) / 2 * (- cos (l2 + l1))\<bar> \<le> 1"
    by (rule convex_bound) (simp_all add: abs_le_iff)
  then show ?thesis
    unfolding a_def haversine_identity by (simp add: abs_le_iff)
qed

lemma haversine_symmetric:
  "(sin ((l2 - l1) / 2))\<^sup>2 + cos l1 * cos l2 * (sin ((m2 - m1) / 2))\<^sup>2 =
   (sin ((l1 - l2) / 2))\<^sup>2 + cos l2 * cos l1 * (sin ((m1 - m2) / 2))\<^sup>2" for l1 l2 m1 m2 :: real
proof -
  have e: "(l1 - l2) / 2 = - ((l2 - l1) / 2)" for l1 l2 :: real
    by (simp add: field_simps)
  have "(sin ((l1 - l2) / 2))\<^sup>2 = (sin ((l2 - l1) / 2))\<^sup>2" for l1 l2 :: real
    unfolding e [of l1 l2] sin_minus by simp
  then show ?thesis by (simp add: mult.commute)
qed

lemma haversine_angle_nonneg:
  fixes l1 l2 d :: real
  shows "0 \<le> arcsin (sqrt ((sin ((l2 - l1) / 2))\<^sup>2 + cos l1 * cos l2 * (sin (d / 2))\<^sup>2))"
  using haversine_domain [of l2 l1 d] by (intro arcsin_nonneg) simp

lemma py_round_nonneg: "0 \<le> x \<Longrightarrow> 0 \<le> py_round x n"
  by (simp add: py_round_def Let_def)

lemma py_round_multiple: "\<exists>k::int. py_round x n = of_int k / 10 ^ n"
  unfolding py_round_def Let_def by blast

section \<open>The distance functions\<close>

text \<open>
  Claim C10. Both distance functions are symmetric and never negative, and the result of
  the canonical one (dispo.py) is a whole number of hundredths of a kilometre.
\<close>

theorem calculate_distance_symmetric_nonneg:
  "calculate_distance p q = calculate_distance q p \<and> 0 \<le> calculate_distance p q \<and>
   (\<exists>k::int. calculate_distance p q = of_int k / 100) \<and>
   calculate_distance2 p q = calculate_distance2 q p \<and> 0 \<le> calculate_distance2 p q"
proof -
  let ?a = "\<lambda>p q :: point. (sin ((radians (fst q) - radians (fst p)) / 2))\<^sup>2 +
              cos (radians (fst p)) * cos (radians (fst q)) *
              (sin ((radians (snd q) - radians (snd p)) / 2))\<^sup>2"
  have d1: "calculate_distance p q = py_round (2 * arcsin (sqrt (?a p q)) * 6371) 2" for p q
    by (simp only: calculate_distance_def Let_def)
  have d2: "calculate_distance2 p q = 6371 * (2 * arcsin (sqrt (?a p q)))" for p q
    by (simp only: calculate_distance2_def Let_def)
  have sym: "?a p q = ?a q p"
    by (rule haversine_symmetric)
  have nonneg: "0 \<le> arcsin (sqrt (?a p q))"
    by (rule haversine_angle_nonneg)
  have c1: "calculate_distance p q = calculate_distance q p"
    by (simp only: d1 sym)
  have c2: "0 \<le> calculate_distance p q"
    unfolding d1 using nonneg by (intro py_round_nonneg) simp
  have c3: "\<exists>k::int. calculate_distance p q = of_int k / 100"
    unfolding d1 using py_round_multiple [of "2 * arcsin (sqrt (?a p q)) * 6371" 2] by simp
  have c4: "calculate_distance2 p q = calculate_distance2 q p"
    by (simp only: d2 sym)
  have c5: "0 \<le> calculate_distance2 p q"
    unfolding d2 using nonneg by simp
  show ?thesis
    using c1 c2 c3 c4 c5 by (intro conjI)
qed

section \<open>Feasibility analysis: determinism\<close>

text \<open>
  Claim C8. The map returned by the feasibility analysis depends on the two lists and
  the module constants only. A run leaves the constants as they are, so a second run on
  the same lists, started in the world the first run left behind, returns the same map,
  and so does a run in any other world with the same constants.
\<close>

theorem feasibility_deterministic:
  "module_globals (snd (determine_permissible_pairs_and_values w truck_list order_list)) =
     module_globals w \<and>
   fst (determine_permissible_pairs_and_values
          (snd (determine_permissible_pairs_and_values w truck_list order_list))
          truck_list order_list) =
     fst (determine_permissible_pairs_and_values w truck_list order_list) \<and>
   (module_globals w' = module_globals w \<longrightarrow>
      fst (determine_permissible_pairs_and_values w' truck_list order_list) =
      fst (determine_permissible_pairs_and_values w truck_list order_list))"
  by (simp add: determine_permissible_pairs_and_values_def Let_def)

theorem feasibility_deterministic_witness:
  "module_globals (world0\<lparr>stdout := [Heading, Pair_count 1]\<rparr>) = module_globals world0 \<and>
   fst (determine_permissible_pairs_and_values (world0\<lparr>stdout := [Heading, Pair_count 1]\<rparr>)
          [lkw1] [auf1, auf2]) =
   fst (determine_permissible_pairs_and_values world0 [lkw1] [auf1, auf2])"
  using feasibility_deterministic
    [of world0 "[lkw1]" "[auf1, auf2]" "world0\<lparr>stdout := [Heading, Pair_count 1]\<rparr>"]
  by simp

section \<open>Travel time and the average speed\<close>

lemma check_pair_no_speed: "AVERAGE_SPEED_KMH g \<le> 0 \<Longrightarrow> check_pair g t o' = None"
  by (simp add: check_pair_def calculate_travel_time_h_def Let_def fmax_def)

lemma permissible_loop_no_speed:
  assumes "AVERAGE_SPEED_KMH g \<le> 0"
  shows "permissible_loop g ts os = []"
proof -
  have "\<not> feasible g t o'" for t o'
    using check_pair_no_speed [OF assms, of t o'] check_pair_feasible [of g t o'] by simp
  then have "fst ` set (permissible_loop g ts os) = {}"
    unfolding permissible_loop_keys by simp
  then show ?thesis by simp
qed

text \<open>
  Claim C6, as the code has it. \<open>calculate_travel_time_h\<close> rejects nothing: for an
  average speed that is not positive it returns infinity for every distance, and for a
  positive one the quotient. With the constant of the module, 80, the travel time is
  the finite \<open>d / 80\<close>. A non-positive speed makes the feasibility analysis run to its
  end and return the empty map. The archived \<open>estimate_travel_time\<close> returns 0 for a
  non-positive speed.
\<close>

theorem travel_time_guard:
  "(AVERAGE_SPEED_KMH g \<le> 0 \<longrightarrow> calculate_travel_time_h g d = PInf) \<and>
   (0 < AVERAGE_SPEED_KMH g \<longrightarrow> calculate_travel_time_h g d = Fin (d / AVERAGE_SPEED_KMH g)) \<and>
   calculate_travel_time_h module_constants d = Fin (d / 80) \<and>
   (AVERAGE_SPEED_KMH (module_globals w) \<le> 0 \<longrightarrow>
      fst (determine_permissible_pairs_and_values w truck_list order_list) = []) \<and>
   (v \<le> 0 \<longrightarrow> estimate_travel_time d v = 0)"
  by (simp add: calculate_travel_time_h_def module_constants_def estimate_travel_time_def
      determine_permissible_pairs_and_values_def Let_def permissible_loop_no_speed)

theorem travel_time_guard_witness:
  "calculate_travel_time_h (module_constants\<lparr>AVERAGE_SPEED_KMH := - 5\<rparr>) 100 = PInf \<and>
   calculate_travel_time_h module_constants 100 = Fin (5 / 4) \<and>
   fst (determine_permissible_pairs_and_values
          (world0\<lparr>module_globals := module_constants\<lparr>AVERAGE_SPEED_KMH := - 5\<rparr>\<rparr>)
          [lkw1] [auf1]) = [] \<and>
   estimate_travel_time 100 (- 5) = 0"
  using travel_time_guard [of "module_constants\<lparr>AVERAGE_SPEED_KMH := - 5\<rparr>" 100
      "world0\<lparr>module_globals := module_constants\<lparr>AVERAGE_SPEED_KMH := - 5\<rparr>\<rparr>"
      "[lkw1]" "[auf1]" "- 5"]
    travel_time_guard [of module_constants 100 world0 "[]" "[]" 1]
  by (simp add: module_constants_def)

text \<open>
  Claim C6 as stated fails: with the average speed 0 the travel time over 100 km is
  infinity, returned without any error, and the feasibility analysis completes.
\<close>

theorem speed_rejected_counterexample:
  "calculate_travel_time_h (module_constants\<lparr>AVERAGE_SPEED_KMH := 0\<rparr>) 100 = PInf \<and>
   fst (determine_permissible_pairs_and_values
          (world0\<lparr>module_globals := module_constants\<lparr>AVERAGE_SPEED_KMH := 0\<rparr>\<rparr>)
          [lkw1] [auf1]) = []"
  by (simp add: calculate_travel_time_h_def determine_permissible_pairs_and_values_def Let_def
      permissible_loop_no_speed)

section \<open>The score of the greedy strategies\<close>

lemma calculate_distance2_same: "calculate_distance2 p p = 0"
  by (simp add: calculate_distance2_def Let_def)

text \<open>
  Claim C5. For a truck whose capacity and an order whose deadline are not zero (as for
  every object that passed \<open>__post_init__\<close>), \<open>calculate_assignment_score\<close> returns as
  total score the weighted sum of the distance to the pickup, the priority score, the
  unused share of the capacity and the time pressure; the priority score grows from
  urgent to low.
\<close>

theorem assignment_score_formula:
  assumes "capacity t \<noteq> 0" and "deadline_hours o' \<noteq> 0"
  shows "(\<exists>details. calculate_assignment_score t o' =
            Inr (DISTANCE_WEIGHT * calculate_distance2 (position t) (pickup_position o') +
                 PRIORITY_WEIGHT * priority_score o' +
                 CAPACITY_WEIGHT * (1 - volume o' / capacity t) +
                 TIME_WEIGHT *
                   max 0 (estimate_travel_time
                            (calculate_distance2 (position t) (pickup_position o')) 50 /
                          deadline_hours o'),
                 details)) \<and>
         priority_values URGENT < priority_values HIGH \<and>
         priority_values HIGH < priority_values NORMAL \<and>
         priority_values NORMAL < priority_values LOW"
  using assms by (simp add: calculate_assignment_score_def Let_def mult.commute)

theorem assignment_score_formula_witness:
  "Truck2_post_init lkw001 = Inr lkw001 \<and> Order2_post_init auf001 = Inr auf001 \<and>
   capacity lkw001 \<noteq> 0 \<and> deadline_hours auf001 \<noteq> 0 \<and>
   (\<exists>details. calculate_assignment_score lkw001 auf001 = Inr (0.636, details))"
proof -
  have c: "capacity lkw001 \<noteq> 0" "deadline_hours auf001 \<noteq> 0"
    by (simp_all add: lkw001_def auf001_def)
  have p: "position lkw001 = pickup_position auf001"
    by (simp add: position_def pickup_position_def lkw001_def auf001_def)
  have v: "Truck2_post_init lkw001 = Inr lkw001" "Order2_post_init auf001 = Inr auf001"
    by (simp_all add: Truck2_post_init_def Order2_post_init_def lkw001_def auf001_def)
  have "DISTANCE_WEIGHT * calculate_distance2 (position lkw001) (pickup_position auf001) +
        PRIORITY_WEIGHT * priority_score auf001 +
        CAPACITY_WEIGHT * (1 - volume auf001 / capacity lkw001) +
        TIME_WEIGHT *
          max 0 (estimate_travel_time
                   (calculate_distance2 (position lkw001) (pickup_position auf001)) 50 /
                 deadline_hours auf001) = 0.636"
    unfolding p calculate_distance2_same
    by (simp add: DISTANCE_WEIGHT_def PRIORITY_WEIGHT_def CAPACITY_WEIGHT_def TIME_WEIGHT_def
        priority_score_def estimate_travel_time_def lkw001_def auf001_def)
  with assignment_score_formula [OF c] c v show ?thesis by simp
qed

section \<open>Aggregation of an empty result\<close>

lemma unassigned_all:
  "set (map (\<lambda>i. os ! i) (sort_key f [0..<length os])) = set os \<and>
   length (map (\<lambda>i. os ! i) (sort_key f [0..<length os])) = length os"
proof -
  have a: "set (map ((!) os) (sort_key f [0..<length os])) = set (map ((!) os) [0..<length os])"
    by simp
  have b: "set (map ((!) os) [0..<length os]) = set os"
    by (simp only: map_nth)
  have c: "length (map ((!) os) (sort_key f [0..<length os])) = length os"
    by simp
  from a b c show ?thesis by simp
qed

text \<open>
  Claim C7. With no assignment, \<open>analyze_assignments\<close> returns a result for all lists of
  trucks and orders, and in it the assignment rate, the average, least, greatest and
  total distance, the total and average cost, the assigned volume and its rate are zero.
  \<open>extract_and_show_results\<close> tolerates an empty set of assignments only when the status
  is optimal: with no active variable it then returns no detail and every order as
  unassigned, and prints the number 0 of assignments but no total or average distance.
  For every other status, where there is no assignment either, it raises
  \<^verbatim>\<open>AttributeError\<close>.
\<close>

theorem empty_assignments_aggregation:
  "(\<exists>an. analyze_assignments [] ts os unassigned = Inr an \<and>
      total_assignments an = 0 \<and> assignment_rate an = 0 \<and>
      avg_distance_km an = 0 \<and> min_distance_km an = 0 \<and> max_distance_km an = 0 \<and>
      total_distance_km an = 0 \<and> total_cost_euro an = 0 \<and> avg_cost_euro an = 0 \<and>
      assigned_volume_tons an = 0 \<and> volume_assignment_rate an = 0) \<and>
   (filter (\<lambda>k. val k > 0.5) x_vars = [] \<longrightarrow>
      (\<exists>unassigned' utilization.
         extract_and_show_results w prob (x_vars, val) truck_list order_list pp LpStatusOptimal =
           Inr (([], unassigned', utilization),
                w\<lparr>stdout := stdout w @
                   [Objective_value (if objective prob \<noteq> [] then objective_value prob val else 0),
                    Assignment_count 0]\<rparr>) \<and>
         set unassigned' = set order_list \<and> length unassigned' = length order_list)) \<and>
   (status \<noteq> LpStatusOptimal \<longrightarrow>
      extract_and_show_results w prob (x_vars, val) truck_list order_list pp status =
        Inl AttributeError)"
proof (intro conjI impI)
  show "\<exists>an. analyze_assignments [] ts os unassigned = Inr an \<and>
      total_assignments an = 0 \<and> assignment_rate an = 0 \<and>
      avg_distance_km an = 0 \<and> min_distance_km an = 0 \<and> max_distance_km an = 0 \<and>
      total_distance_km an = 0 \<and> total_cost_euro an = 0 \<and> avg_cost_euro an = 0 \<and>
      assigned_volume_tons an = 0 \<and> volume_assignment_rate an = 0"
    by (simp add: analyze_assignments_def Let_def)
next
  assume "filter (\<lambda>k. val k > 0.5) x_vars = []"
  then show "\<exists>unassigned' utilization.
         extract_and_show_results w prob (x_vars, val) truck_list order_list pp LpStatusOptimal =
           Inr (([], unassigned', utilization),
                w\<lparr>stdout := stdout w @
                   [Objective_value (if objective prob \<noteq> [] then objective_value prob val else 0),
                    Assignment_count 0]\<rparr>) \<and>
         set unassigned' = set order_list \<and> length unassigned' = length order_list"
    using unassigned_all [of order_list]
    by (simp add: extract_and_show_results_def Let_def)
next
  assume "status \<noteq> LpStatusOptimal"
  then show "extract_and_show_results w prob (x_vars, val) truck_list order_list pp status =
        Inl AttributeError"
    by (simp add: extract_and_show_results_def Let_def)
qed

text \<open>
  The call on the example truck and orders with the status \<^verbatim>\<open>LpStatusNotSolved\<close>,
  and with the optimal status when no variable is active.
\<close>

theorem empty_assignments_aggregation_witness:
  "LpStatusNotSolved \<noteq> LpStatusOptimal \<and>
   extract_and_show_results world0
     (fst (create_lp_model module_constants [lkw1] [auf1, auf2]
             (fst (determine_permissible_pairs_and_values world0 [lkw1] [auf1, auf2]))))
     ([(''LKW1'', ''AUF1'')], \<lambda>_. 0) [lkw1] [auf1, auf2]
     (fst (determine_permissible_pairs_and_values world0 [lkw1] [auf1, auf2]))
     LpStatusNotSolved = Inl AttributeError \<and>
   filter (\<lambda>k. (\<lambda>_. 0 :: real) k > 0.5) [(''LKW1'', ''AUF1'')] = [] \<and>
   (\<exists>unassigned' utilization w'.
      extract_and_show_results world0
        (fst (create_lp_model module_constants [lkw1] [auf1, auf2]
                (fst (determine_permissible_pairs_and_values world0 [lkw1] [auf1, auf2]))))
        ([(''LKW1'', ''AUF1'')], \<lambda>_. 0) [lkw1] [auf1, auf2]
        (fst (determine_permissible_pairs_and_values world0 [lkw1] [auf1, auf2]))
        LpStatusOptimal = Inr (([], unassigned', utilization), w') \<and>
      length unassigned' = 2)"
proof -
  let ?pp = "fst (determine_permissible_pairs_and_values world0 [lkw1] [auf1, auf2])"
  let ?prob = "fst (create_lp_model module_constants [lkw1] [auf1, auf2] ?pp)"
  note th = empty_assignments_aggregation [where val = "\<lambda>_. 0" and x_vars = "[(''LKW1'', ''AUF1'')]"
      and w = world0 and truck_list = "[lkw1]" and order_list = "[auf1, auf2]"
      and status = LpStatusNotSolved and pp = ?pp and prob = ?prob]
  have h: "filter (\<lambda>k. (\<lambda>_. 0 :: real) k > 0.5) [(''LKW1'', ''AUF1'')] = []"
    by simp
  have n: "LpStatusNotSolved \<noteq> LpStatusOptimal"
    by simp
  have a: "extract_and_show_results world0 ?prob ([(''LKW1'', ''AUF1'')], \<lambda>_. 0)
             [lkw1] [auf1, auf2] ?pp LpStatusNotSolved = Inl AttributeError"
    by (rule th [THEN conjunct2, THEN conjunct2, rule_format, OF n])
  have "\<exists>unassigned' utilization w'.
      extract_and_show_results world0 ?prob ([(''LKW1'', ''AUF1'')], \<lambda>_. 0)
        [lkw1] [auf1, auf2] ?pp LpStatusOptimal = Inr (([], unassigned', utilization), w') \<and>
      length unassigned' = 2"
    using th [THEN conjunct2, THEN conjunct1, rule_format, OF h] by auto
  with n a h show ?thesis by blast
qed

section \<open>The values stored for a pair\<close>

lemma check_pair_values:
  assumes "check_pair g t o' = Some v"
  shows "distanz_anfahrt v = calculate_distance (location t) (loading_site o')"
    and "distanz_transport v = calculate_distance (loading_site o') (unloading_site o')"
    and "distanz_gesamt_fuer_auftrag v = distanz_anfahrt v + distanz_transport v"
    and "prio_gewicht v = priorities_get g (Order.priority o')"
    and "weight_kg o' \<le> capacity_kg t"
  using assms by (auto simp: check_pair_def Let_def split: if_splits)

lemma pair_step_distinct: "distinct (map fst pp) \<Longrightarrow> distinct (map fst (pair_step g t o' pp))"
  by (simp add: pair_step_def distinct_update split: option.splits)

lemma inner_loop_distinct:
  "distinct (map fst pp) \<Longrightarrow>
   distinct (map fst (foldl (\<lambda>pp' order. pair_step g t order pp') pp os))"
  by (induction os arbitrary: pp) (simp_all add: pair_step_distinct)

lemma outer_loop_distinct:
  "distinct (map fst pp) \<Longrightarrow>
   distinct (map fst (foldl (\<lambda>pp truck. foldl (\<lambda>pp' order. pair_step g truck order pp') pp os)
                        pp ts))"
  by (induction ts arbitrary: pp) (simp_all add: inner_loop_distinct)

lemma permissible_loop_distinct: "distinct (map fst (permissible_loop g ts os))"
  by (simp add: permissible_loop_def outer_loop_distinct)

lemma pair_step_from_check:
  "from_check g ts os pp \<Longrightarrow> t \<in> set ts \<Longrightarrow> o' \<in> set os \<Longrightarrow>
   from_check g ts os (pair_step g t o' pp)"
  unfolding from_check_def pair_step_def
  by (auto simp: update_conv' split: option.splits if_splits)

lemma inner_loop_from_check:
  "from_check g ts os pp \<Longrightarrow> t \<in> set ts \<Longrightarrow> set os' \<subseteq> set os \<Longrightarrow>
   from_check g ts os (foldl (\<lambda>pp' order. pair_step g t order pp') pp os')"
  by (induction os' arbitrary: pp) (simp_all add: pair_step_from_check)

lemma outer_loop_from_check:
  "from_check g ts os pp \<Longrightarrow> set ts' \<subseteq> set ts \<Longrightarrow>
   from_check g ts os
     (foldl (\<lambda>pp truck. foldl (\<lambda>pp' order. pair_step g truck order pp') pp os) pp ts')"
  by (induction ts' arbitrary: pp) (simp_all add: inner_loop_from_check)

lemma permissible_loop_from_check: "from_check g ts os (permissible_loop g ts os)"
  unfolding permissible_loop_def
  by (rule outer_loop_from_check) (simp_all add: from_check_def)

section \<open>The objective of the optimisation model\<close>

lemma distinct_map_eq:
  "distinct (map f xs) \<Longrightarrow> x \<in> set xs \<Longrightarrow> y \<in> set xs \<Longrightarrow> f x = f y \<Longrightarrow> x = y"
  by (auto simp: distinct_map dest: inj_onD)

lemma create_lp_model_objective:
  assumes "create_lp_model g ts os pp = (prob, x_vars)"
  shows "sense prob = LpMaximize"
    and "x_vars = map fst pp"
    and "objective prob =
           map (\<lambda>(k, v). (PRIORITY_WEIGHT_FACTOR g * of_int (prio_gewicht v) -
                           DISTANCE_COST_FACTOR g * distanz_gesamt_fuer_auftrag v, k)) pp"
  using assms by (auto simp: create_lp_model_def Let_def)

lemma objective_keys:
  assumes "create_lp_model g ts os pp = (prob, x_vars)"
  shows "map snd (objective prob) = x_vars"
  unfolding create_lp_model_objective [OF assms] by (induction pp) auto

lemma objective_term:
  assumes m: "create_lp_model g ts os pp = (prob, x_vars)"
    and d: "distinct (map fst pp)"
    and c: "(c, k) \<in> set (objective prob)"
  shows "\<exists>v. map_of pp k = Some v \<and>
           c = PRIORITY_WEIGHT_FACTOR g * of_int (prio_gewicht v) -
               DISTANCE_COST_FACTOR g * distanz_gesamt_fuer_auftrag v"
proof -
  from c obtain v where "(k, v) \<in> set pp"
    and "c = PRIORITY_WEIGHT_FACTOR g * of_int (prio_gewicht v) -
               DISTANCE_COST_FACTOR g * distanz_gesamt_fuer_auftrag v"
    unfolding create_lp_model_objective(3) [OF m] by auto
  with d show ?thesis by auto
qed

text \<open>
  Claim C4. The model built from the permissible pairs is a maximisation; its objective
  has exactly one term for each permissible pair, and the coefficient of a term is
  \<open>PRIORITY_WEIGHT_FACTOR * priority weight - DISTANCE_COST_FACTOR * (approach distance +
  transport distance)\<close> of a feasible truck and order with the ids of the pair. When the
  ids are unique, this is the coefficient of every feasible truck and order of the lists.
\<close>

theorem objective_coefficients:
  assumes m: "create_lp_model (module_globals w) truck_list order_list
                (fst (determine_permissible_pairs_and_values w truck_list order_list)) =
              (prob, x_vars)"
  shows "sense prob = LpMaximize \<and>
         map snd (objective prob) = x_vars \<and> distinct x_vars \<and>
         set x_vars = {(Truck.truck_id t, Order.order_id o') |t o'.
                         t \<in> set truck_list \<and> o' \<in> set order_list \<and>
                         feasible (module_globals w) t o'} \<and>
         (\<forall>(c, k) \<in> set (objective prob).
            \<exists>t \<in> set truck_list. \<exists>o' \<in> set order_list.
              k = (Truck.truck_id t, Order.order_id o') \<and> feasible (module_globals w) t o' \<and>
              c = PRIORITY_WEIGHT_FACTOR (module_globals w) *
                    of_int (priorities_get (module_globals w) (Order.priority o')) -
                  DISTANCE_COST_FACTOR (module_globals w) *
                    (calculate_distance (location t) (loading_site o') +
                     calculate_distance (loading_site o') (unloading_site o'))) \<and>
         (distinct (map Truck.truck_id truck_list) \<longrightarrow>
          distinct (map Order.order_id order_list) \<longrightarrow>
            (\<forall>t \<in> set truck_list. \<forall>o' \<in> set order_list.
               feasible (module_globals w) t o' \<longrightarrow>
                 (PRIORITY_WEIGHT_FACTOR (module_globals w) *
                    of_int (priorities_get (module_globals w) (Order.priority o')) -
                  DISTANCE_COST_FACTOR (module_globals w) *
                    (calculate_distance (location t) (loading_site o') +
                     calculate_distance (loading_site o') (unloading_site o')),
                  (Truck.truck_id t, Order.order_id o')) \<in> set (objective prob)))"
proof -
  let ?g = "module_globals w"
  let ?pp = "fst (determine_permissible_pairs_and_values w truck_list order_list)"
  let ?coef = "\<lambda>t o'. PRIORITY_WEIGHT_FACTOR ?g * of_int (priorities_get ?g (Order.priority o')) -
                  DISTANCE_COST_FACTOR ?g *
                    (calculate_distance (location t) (loading_site o') +
                     calculate_distance (loading_site o') (unloading_site o'))"
  have pp: "?pp = permissible_loop ?g truck_list order_list"
    by (simp add: determine_permissible_pairs_and_values_def Let_def)
  have dist: "distinct (map fst ?pp)"
    unfolding pp by (rule permissible_loop_distinct)
  have xv: "x_vars = map fst ?pp"
    by (rule create_lp_model_objective(2) [OF m])
  have c1: "sense prob = LpMaximize"
    by (rule create_lp_model_objective(1) [OF m])
  have c2: "map snd (objective prob) = x_vars"
    by (rule objective_keys [OF m])
  have c3: "distinct x_vars"
    unfolding xv by (rule dist)
  have c4: "set x_vars = {(Truck.truck_id t, Order.order_id o') |t o'.
                         t \<in> set truck_list \<and> o' \<in> set order_list \<and> feasible ?g t o'}"
    unfolding xv pp using permissible_loop_keys [of ?g truck_list order_list] by simp
  have tm: "\<exists>t \<in> set truck_list. \<exists>o' \<in> set order_list.
              k = (Truck.truck_id t, Order.order_id o') \<and> feasible ?g t o' \<and> c = ?coef t o'"
    if "(c, k) \<in> set (objective prob)" for c k
  proof -
    from objective_term [OF m dist that] obtain v where v: "map_of ?pp k = Some v"
      and c: "c = PRIORITY_WEIGHT_FACTOR ?g * of_int (prio_gewicht v) -
               DISTANCE_COST_FACTOR ?g * distanz_gesamt_fuer_auftrag v"
      by blast
    from permissible_loop_from_check [of ?g truck_list order_list] v
    obtain t o' where to: "t \<in> set truck_list" "o' \<in> set order_list"
        "k = (Truck.truck_id t, Order.order_id o')" "check_pair ?g t o' = Some v"
      unfolding from_check_def pp by blast
    have "feasible ?g t o'"
      using check_pair_feasible [of ?g t o'] to(4) by simp
    moreover have "c = ?coef t o'"
      unfolding c using check_pair_values(1-4) [OF to(4)] by simp
    ultimately show ?thesis using to by blast
  qed
  have c5: "\<forall>(c, k) \<in> set (objective prob).
            \<exists>t \<in> set truck_list. \<exists>o' \<in> set order_list.
              k = (Truck.truck_id t, Order.order_id o') \<and> feasible ?g t o' \<and> c = ?coef t o'"
    using tm by blast
  have c6: "(?coef t o', (Truck.truck_id t, Order.order_id o')) \<in> set (objective prob)"
    if d: "distinct (map Truck.truck_id truck_list)" "distinct (map Order.order_id order_list)"
      and t: "t \<in> set truck_list" and o: "o' \<in> set order_list" and f: "feasible ?g t o'"
    for t o'
  proof -
    have "(Truck.truck_id t, Order.order_id o') \<in> set x_vars"
      unfolding c4 using t o f by blast
    then obtain c where c: "(c, (Truck.truck_id t, Order.order_id o')) \<in> set (objective prob)"
      unfolding c2 [symmetric] by auto
    from tm [OF c] obtain t' o'' where to: "t' \<in> set truck_list" "o'' \<in> set order_list"
      "Truck.truck_id t = Truck.truck_id t'" "Order.order_id o' = Order.order_id o''"
      "c = ?coef t' o''"
      by blast
    have "t' = t"
      using distinct_map_eq [OF d(1) to(1) t] to(3) by simp
    moreover have "o'' = o'"
      using distinct_map_eq [OF d(2) to(2) o] to(4) by simp
    ultimately show ?thesis using c to(5) by simp
  qed
  from c1 c2 c3 c4 c5 c6 show ?thesis by blast
qed

theorem objective_coefficients_witness:
  "distinct (map Truck.truck_id [lkw1]) \<and> distinct (map Order.order_id [auf1, auf2]) \<and>
   feasible (module_globals world0) lkw1 auf1 \<and>
   (30000, (''LKW1'', ''AUF1'')) \<in>
     set (objective (fst (create_lp_model (module_globals world0) [lkw1] [auf1, auf2]
       (fst (determine_permissible_pairs_and_values world0 [lkw1] [auf1, auf2])))))"
proof -
  let ?m = "create_lp_model (module_globals world0) [lkw1] [auf1, auf2]
       (fst (determine_permissible_pairs_and_values world0 [lkw1] [auf1, auf2]))"
  have m: "?m = (fst ?m, snd ?m)"
    by simp
  have d: "distinct (map Truck.truck_id [lkw1])" "distinct (map Order.order_id [auf1, auf2])"
    by (simp_all add: auf1_def auf2_def)
  have f: "feasible (module_globals world0) lkw1 auf1"
    using feasible_lkw1_auf1 by (simp add: world0_def)
  note r = objective_coefficients [OF m, THEN conjunct2, THEN conjunct2, THEN conjunct2,
      THEN conjunct2, THEN conjunct2, rule_format, OF d _ _ f]
  have "(PRIORITY_WEIGHT_FACTOR (module_globals world0) *
          of_int (priorities_get (module_globals world0) (Order.priority auf1)) -
        DISTANCE_COST_FACTOR (module_globals world0) *
          (calculate_distance (location lkw1) (loading_site auf1) +
           calculate_distance (loading_site auf1) (unloading_site auf1)),
         (Truck.truck_id lkw1, Order.order_id auf1)) \<in> set (objective (fst ?m))"
    by (rule r) simp_all
  moreover have "PRIORITY_WEIGHT_FACTOR (module_globals world0) *
          of_int (priorities_get (module_globals world0) (Order.priority auf1)) -
        DISTANCE_COST_FACTOR (module_globals world0) *
          (calculate_distance (location lkw1) (loading_site auf1) +
           calculate_distance (loading_site auf1) (unloading_site auf1)) = 30000"
    by (simp add: world0_def module_constants_def priorities_get_def lkw1_def auf1_def
        calculate_distance_same)
  moreover have "(Truck.truck_id lkw1, Order.order_id auf1) = (''LKW1'', ''AUF1'')"
    by (simp add: lkw1_def auf1_def)
  ultimately have "(30000, (''LKW1'', ''AUF1'')) \<in> set (objective (fst ?m))"
    by simp
  with d f show ?thesis by blast
qed

section \<open>The extracted assignments\<close>

text \<open>The key of a detail, and the keys for which the loop of the extraction adds one.\<close>

lemma extract_step_details:
  "map (\<lambda>d. (lkw_id d, auftrag_id d)) (assigned_orders_details (extract_step ts os pp s k)) =
     map (\<lambda>d. (lkw_id d, auftrag_id d)) (assigned_orders_details s) @
     (if extracted ts os pp k then [k] else [])"
  by (auto simp: extract_step_def extracted_def Let_def split: option.splits)

lemma extract_loop_details:
  "map (\<lambda>d. (lkw_id d, auftrag_id d)) (assigned_orders_details (foldl (extract_step ts os pp) s ks)) =
     map (\<lambda>d. (lkw_id d, auftrag_id d)) (assigned_orders_details s) @
     filter (extracted ts os pp) ks"
  by (induction ks arbitrary: s) (simp_all add: extract_step_details)

lemma first_index_Some:
  "first_index P xs = Some i \<Longrightarrow> i < length xs \<and> P (xs ! i) \<and> find P xs = Some (xs ! i)"
  by (induction xs arbitrary: i) (auto split: if_splits)

lemma extract_step_sound:
  assumes "\<forall>d \<in> set (assigned_orders_details s). Q d"
    and "\<And>v t i. map_of pp k = Some v \<Longrightarrow> find (\<lambda>t. Truck.truck_id t = fst k) ts = Some t \<Longrightarrow>
           first_index (\<lambda>o'. Order.order_id o' = snd k) os = Some i \<Longrightarrow>
           Q \<lparr>lkw_id = fst k, auftrag_id = snd k,
              anfahrt_dist_km = distanz_anfahrt v,
              transport_dist_km = distanz_transport v,
              gesamtdistanz_fuer_auftrag_km = distanz_gesamt_fuer_auftrag v,
              ladebeginn_h = ladebeginn_calc_h v,
              ladeende_h = ladeende_calc_h v,
              entladung_ende_h = entladung_ende_calc_h v,
              auftrag_prio_original = Order.priority (os ! i),
              auftrag_prio_gewicht = prio_gewicht v,
              auftrag_gewicht_kg = weight_kg (os ! i),
              lkw_kapazitaet_kg = capacity_kg t,
              lkw_verfuegbar_bis_h = available_until_h t\<rparr>"
  shows "\<forall>d \<in> set (assigned_orders_details (extract_step ts os pp s k)). Q d"
  using assms by (auto simp: extract_step_def Let_def split: option.splits)

lemma sum_list_two:
  fixes f :: "'a \<Rightarrow> real"
  assumes "\<forall>x \<in> set xs. 0 \<le> f x" and "a \<in> set xs" and "b \<in> set xs" and "a \<noteq> b"
  shows "f a + f b \<le> sum_list (map f xs)"
proof -
  have one: "x \<in> set ys \<Longrightarrow> \<forall>y \<in> set ys. 0 \<le> f y \<Longrightarrow> f x \<le> sum_list (map f ys)" for x ys
  proof (induction ys)
    case Nil
    then show ?case by simp
  next
    case (Cons y ys)
    have "0 \<le> sum_list (map f ys)"
      using Cons.prems(2) by (intro sum_list_nonneg) auto
    then show ?case
      using Cons by (cases "x = y") (auto simp: add_increasing add_increasing2)
  qed
  from assms show ?thesis
  proof (induction xs)
    case Nil
    then show ?case by simp
  next
    case (Cons y ys)
    have nn: "0 \<le> f y" "\<forall>z \<in> set ys. 0 \<le> f z"
      using Cons.prems(1) by auto
    consider "y = a" | "y = b" | "y \<noteq> a \<and> y \<noteq> b" by blast
    then show ?case
    proof cases
      case 1
      then have "b \<in> set ys" using Cons.prems by auto
      from one [OF this nn(2)] 1 show ?thesis by simp
    next
      case 2
      then have "a \<in> set ys" using Cons.prems by auto
      from one [OF this nn(2)] 2 show ?thesis by simp
    next
      case 3
      then have "f a + f b \<le> sum_list (map f ys)"
        using Cons by auto
      then show ?thesis using nn(1) by simp
    qed
  qed
qed

lemma constraint_excludes_two:
  assumes sol: "is_solution prob x_vars val"
    and c: "c \<in> set (constraints prob)" "con_upper c = 1" "set (con_sum c) \<subseteq> set x_vars"
    and k: "k1 \<in> set (con_sum c)" "k2 \<in> set (con_sum c)" "val k1 > 0.5" "val k2 > 0.5"
  shows "k1 = k2"
proof (rule ccontr)
  assume ne: "k1 \<noteq> k2"
  have "\<forall>k \<in> set (con_sum c). 0 \<le> val k"
    using sol c(3) unfolding is_solution_def list_all_iff by fastforce
  from sum_list_two [OF this k(1,2) ne]
  have "val k1 + val k2 \<le> sum_list (map val (con_sum c))" .
  also have "\<dots> \<le> 1"
    using sol c(1,2) unfolding is_solution_def list_all_iff by fastforce
  finally show False using k(3,4) by simp
qed

lemma create_lp_model_constraints:
  assumes m: "create_lp_model g ts os pp = (prob, x_vars)"
  shows "o' \<in> set os \<Longrightarrow>
           \<exists>c \<in> set (constraints prob). con_upper c = 1 \<and>
             con_sum c = map (\<lambda>t. (Truck.truck_id t, Order.order_id o'))
                           (filter (\<lambda>t. (Truck.truck_id t, Order.order_id o') \<in> set x_vars) ts)"
    and "t \<in> set ts \<Longrightarrow>
           \<exists>c \<in> set (constraints prob). con_upper c = 1 \<and>
             con_sum c = map (\<lambda>o'. (Truck.truck_id t, Order.order_id o'))
                           (filter (\<lambda>o'. (Truck.truck_id t, Order.order_id o') \<in> set x_vars) os)"
proof -
  let ?A = "\<lambda>order.
              \<lparr>con_name = ''Order_'' @ Order.order_id order @ ''_max_once'',
               con_sum = map (\<lambda>truck. (Truck.truck_id truck, Order.order_id order))
                           (filter (\<lambda>truck. (Truck.truck_id truck, Order.order_id order)
                                             \<in> set x_vars) ts),
               con_upper = 1\<rparr>"
  let ?B = "\<lambda>truck.
              \<lparr>con_name = ''Truck_'' @ Truck.truck_id truck @ ''_max_one_order'',
               con_sum = map (\<lambda>order. (Truck.truck_id truck, Order.order_id order))
                           (filter (\<lambda>order. (Truck.truck_id truck, Order.order_id order)
                                             \<in> set x_vars) os),
               con_upper = 1\<rparr>"
  have cs: "constraints prob = map ?A os @ map ?B ts"
    using m by (auto simp: create_lp_model_def Let_def)
  show "\<exists>c \<in> set (constraints prob). con_upper c = 1 \<and>
             con_sum c = map (\<lambda>t. (Truck.truck_id t, Order.order_id o'))
                           (filter (\<lambda>t. (Truck.truck_id t, Order.order_id o') \<in> set x_vars) ts)"
    if "o' \<in> set os"
  proof (rule rev_bexI [of "?A o'"])
    show "?A o' \<in> set (constraints prob)" unfolding cs using that by simp
  qed simp
  show "\<exists>c \<in> set (constraints prob). con_upper c = 1 \<and>
             con_sum c = map (\<lambda>o'. (Truck.truck_id t, Order.order_id o'))
                           (filter (\<lambda>o'. (Truck.truck_id t, Order.order_id o') \<in> set x_vars) os)"
    if "t \<in> set ts"
  proof (rule rev_bexI [of "?B t"])
    show "?B t \<in> set (constraints prob)" unfolding cs using that by simp
  qed simp
qed

lemma solution_one_per_order_and_truck:
  assumes m: "create_lp_model g ts os pp = (prob, x_vars)"
    and keys: "set x_vars \<subseteq> {(Truck.truck_id t, Order.order_id o') |t o'. t \<in> set ts \<and> o' \<in> set os}"
    and sol: "is_solution prob x_vars val"
    and k: "k1 \<in> set x_vars" "k2 \<in> set x_vars" "val k1 > 0.5" "val k2 > 0.5"
    and same: "snd k1 = snd k2 \<or> fst k1 = fst k2"
  shows "k1 = k2"
proof -
  from keys k(1) obtain t1 o1 where k1: "k1 = (Truck.truck_id t1, Order.order_id o1)"
    "t1 \<in> set ts" "o1 \<in> set os" by blast
  from keys k(2) obtain t2 o2 where k2: "k2 = (Truck.truck_id t2, Order.order_id o2)"
    "t2 \<in> set ts" "o2 \<in> set os" by blast
  from same show ?thesis
  proof
    assume e: "snd k1 = snd k2"
    from create_lp_model_constraints(1) [OF m k1(3)] obtain c where
      c: "c \<in> set (constraints prob)" "con_upper c = 1"
      "con_sum c = map (\<lambda>t. (Truck.truck_id t, Order.order_id o1))
                           (filter (\<lambda>t. (Truck.truck_id t, Order.order_id o1) \<in> set x_vars) ts)"
      by blast
    have "set (con_sum c) \<subseteq> set x_vars"
      unfolding c(3) by auto
    moreover have "k1 \<in> set (con_sum c)"
      unfolding c(3) using k1 k(1) by auto
    moreover have "k2 \<in> set (con_sum c)"
      unfolding c(3) using k1 k2 k(2) e by auto
    ultimately show ?thesis
      using constraint_excludes_two [OF sol c(1,2)] k(3,4) by blast
  next
    assume e: "fst k1 = fst k2"
    from create_lp_model_constraints(2) [OF m k1(2)] obtain c where
      c: "c \<in> set (constraints prob)" "con_upper c = 1"
      "con_sum c = map (\<lambda>o'. (Truck.truck_id t1, Order.order_id o'))
                           (filter (\<lambda>o'. (Truck.truck_id t1, Order.order_id o') \<in> set x_vars) os)"
      by blast
    have "set (con_sum c) \<subseteq> set x_vars"
      unfolding c(3) by auto
    moreover have "k1 \<in> set (con_sum c)"
      unfolding c(3) using k1 k(1) by auto
    moreover have "k2 \<in> set (con_sum c)"
      unfolding c(3) using k1 k2 k(2) e by auto
    ultimately show ?thesis
      using constraint_excludes_two [OF sol c(1,2)] k(3,4) by blast
  qed
qed

lemma distinct_map_sort_key:
  "distinct (map g (sort_key f xs)) = distinct (map g xs)"
  by (simp add: distinct_map)

lemma extract_loop_sound:
  assumes "\<forall>d \<in> set (assigned_orders_details s). Q d"
    and "\<And>k v t i. k \<in> set ks \<Longrightarrow> map_of pp k = Some v \<Longrightarrow>
           find (\<lambda>t. Truck.truck_id t = fst k) ts = Some t \<Longrightarrow>
           first_index (\<lambda>o'. Order.order_id o' = snd k) os = Some i \<Longrightarrow>
           Q \<lparr>lkw_id = fst k, auftrag_id = snd k,
              anfahrt_dist_km = distanz_anfahrt v,
              transport_dist_km = distanz_transport v,
              gesamtdistanz_fuer_auftrag_km = distanz_gesamt_fuer_auftrag v,
              ladebeginn_h = ladebeginn_calc_h v,
              ladeende_h = ladeende_calc_h v,
              entladung_ende_h = entladung_ende_calc_h v,
              auftrag_prio_original = Order.priority (os ! i),
              auftrag_prio_gewicht = prio_gewicht v,
              auftrag_gewicht_kg = weight_kg (os ! i),
              lkw_kapazitaet_kg = capacity_kg t,
              lkw_verfuegbar_bis_h = available_until_h t\<rparr>"
  shows "\<forall>d \<in> set (assigned_orders_details (foldl (extract_step ts os pp) s ks)). Q d"
  using assms
proof (induction ks arbitrary: s)
  case Nil
  then show ?case by simp
next
  case (Cons k ks)
  have "\<forall>d \<in> set (assigned_orders_details (extract_step ts os pp s k)). Q d"
    by (rule extract_step_sound [OF Cons.prems(1)]) (rule Cons.prems(2), simp_all)
  then show ?case
    unfolding foldl_Cons by (rule Cons.IH) (rule Cons.prems(2), simp_all)
qed

lemma extract_details:
  assumes "extract_and_show_results w prob (x_vars, val) ts os pp status =
             Inr ((details, unassigned, util), w')"
  shows "status = LpStatusOptimal"
    and "\<exists>s0. assigned_orders_details s0 = [] \<and>
           details =
             sort_key (\<lambda>x. (auftrag_prio_original x, lkw_id x))
               (assigned_orders_details
                  (foldl (extract_step ts os pp) s0 (filter (\<lambda>k. val k > 0.5) x_vars)))"
proof -
  let ?s0 = "\<lparr>assigned_orders_details = [],
             unassigned_orders_obj = [0..<length os],
             truck_utilization =
               foldl (\<lambda>d truck. AList.update (Truck.truck_id truck) (None, None) d) [] ts,
             total_distance_final_km = 0\<rparr>"
  show st: "status = LpStatusOptimal"
    using assms by (simp add: extract_and_show_results_def Let_def split: if_splits)
  have "details =
          sort_key (\<lambda>x. (auftrag_prio_original x, lkw_id x))
            (assigned_orders_details
               (foldl (extract_step ts os pp) ?s0 (filter (\<lambda>k. val k > 0.5) x_vars)))"
    using assms unfolding st by (simp add: extract_and_show_results_def Let_def)
  then show "\<exists>s0. assigned_orders_details s0 = [] \<and>
           details =
             sort_key (\<lambda>x. (auftrag_prio_original x, lkw_id x))
               (assigned_orders_details
                  (foldl (extract_step ts os pp) s0 (filter (\<lambda>k. val k > 0.5) x_vars)))"
    by (intro exI [of _ ?s0] conjI) simp_all
qed

lemma permissible_keys_subset:
  "set (map fst (fst (determine_permissible_pairs_and_values w ts os))) \<subseteq>
     {(Truck.truck_id t, Order.order_id o') |t o'. t \<in> set ts \<and> o' \<in> set os}"
  using permissible_keys [of w ts os] by auto

lemma extracted_keys:
  assumes ex: "extract_and_show_results w' prob (x_vars, val) ts os pp status =
                 Inr ((details, unassigned, util), w'')"
    and dx: "distinct x_vars"
  shows "\<exists>ks. distinct ks \<and> set ks \<subseteq> {k \<in> set x_vars. val k > 0.5} \<and>
           distinct (map auftrag_id details) = distinct (map snd ks) \<and>
           distinct (map lkw_id details) = distinct (map fst ks)"
proof -
  from extract_details(2) [OF ex] obtain s0 where s0: "assigned_orders_details s0 = []"
    and dd: "details =
             sort_key (\<lambda>x. (auftrag_prio_original x, lkw_id x))
               (assigned_orders_details
                  (foldl (extract_step ts os pp) s0 (filter (\<lambda>k. val k > 0.5) x_vars)))"
    by blast
  let ?ds = "assigned_orders_details
               (foldl (extract_step ts os pp) s0 (filter (\<lambda>k. val k > 0.5) x_vars))"
  let ?ks = "filter (extracted ts os pp) (filter (\<lambda>k. val k > 0.5) x_vars)"
  have ks: "map (\<lambda>d. (lkw_id d, auftrag_id d)) ?ds = ?ks"
    using extract_loop_details [of ts os pp s0] s0 by simp
  have "map auftrag_id ?ds = map snd (map (\<lambda>d. (lkw_id d, auftrag_id d)) ?ds)"
    by simp
  then have a: "map auftrag_id ?ds = map snd ?ks"
    unfolding ks .
  have "map lkw_id ?ds = map fst (map (\<lambda>d. (lkw_id d, auftrag_id d)) ?ds)"
    by simp
  then have b: "map lkw_id ?ds = map fst ?ks"
    unfolding ks .
  have "distinct (map auftrag_id details) = distinct (map snd ?ks)"
    unfolding dd distinct_map_sort_key a ..
  moreover have "distinct (map lkw_id details) = distinct (map fst ?ks)"
    unfolding dd distinct_map_sort_key b ..
  moreover have "distinct ?ks" using dx by simp
  moreover have "set ?ks \<subseteq> {k \<in> set x_vars. val k > 0.5}" by auto
  ultimately show ?thesis by blast
qed

section \<open>The optimal strategy: one order per truck, one truck per order\<close>

text \<open>
  Claim C2. Let the model be built from the permissible pairs of the lists, and let the
  solver's values be a solution of it whenever the status is optimal. Then in the details
  that \<open>extract_and_show_results\<close> returns no order id and no truck id occurs twice.
\<close>

theorem optimal_assignments_unique:
  assumes m: "create_lp_model (module_globals w) truck_list order_list
                (fst (determine_permissible_pairs_and_values w truck_list order_list)) =
              (prob, x_vars)"
    and sol: "status = LpStatusOptimal \<longrightarrow> is_solution prob x_vars val"
    and ex: "extract_and_show_results w' prob (x_vars, val) truck_list order_list
               (fst (determine_permissible_pairs_and_values w truck_list order_list)) status =
             Inr ((details, unassigned, util), w'')"
  shows "distinct (map auftrag_id details) \<and> distinct (map lkw_id details)"
proof -
  from extract_details(1) [OF ex] sol have sol': "is_solution prob x_vars val" by simp
  let ?pp = "fst (determine_permissible_pairs_and_values w truck_list order_list)"
  have xv: "x_vars = map fst ?pp"
    by (rule create_lp_model_objective(2) [OF m])
  have dx: "distinct x_vars"
    unfolding xv
    by (simp add: determine_permissible_pairs_and_values_def Let_def permissible_loop_distinct)
  have keys: "set x_vars \<subseteq> {(Truck.truck_id t, Order.order_id o') |t o'.
                               t \<in> set truck_list \<and> o' \<in> set order_list}"
    unfolding xv by (rule permissible_keys_subset)
  from extracted_keys [OF ex dx] obtain ks where ks: "distinct ks"
    "set ks \<subseteq> {k \<in> set x_vars. val k > 0.5}"
    "distinct (map auftrag_id details) = distinct (map snd ks)"
    "distinct (map lkw_id details) = distinct (map fst ks)"
    by blast
  have one: "k1 = k2"
    if "k1 \<in> set ks" "k2 \<in> set ks" "snd k1 = snd k2 \<or> fst k1 = fst k2" for k1 k2
    using solution_one_per_order_and_truck [OF m keys sol', of k1 k2] that ks(2) by blast
  have "inj_on snd (set ks)"
    by (rule inj_onI) (rule one, simp_all)
  moreover have "inj_on fst (set ks)"
    by (rule inj_onI) (rule one, simp_all)
  ultimately show ?thesis
    unfolding ks(3,4) using ks(1) by (simp add: distinct_map)
qed

lemma example_pairs:
  "\<exists>v. fst (determine_permissible_pairs_and_values world0 [lkw1] [auf1, auf2]) =
         [((''LKW1'', ''AUF1''), v)]"
proof -
  have "check_pair module_constants lkw1 auf1 \<noteq> None"
    using feasible_lkw1_auf1 check_pair_feasible by blast
  moreover have "check_pair module_constants lkw1 auf2 = None"
    using infeasible_lkw1_auf2 check_pair_feasible by blast
  ultimately show ?thesis
    by (auto simp: determine_permissible_pairs_and_values_def Let_def permissible_loop_def
        pair_step_def world0_def lkw1_def auf1_def)
qed

theorem optimal_assignments_unique_witness:
  "is_solution
     (fst (create_lp_model (module_globals world0) [lkw1] [auf1, auf2]
        (fst (determine_permissible_pairs_and_values world0 [lkw1] [auf1, auf2]))))
     (snd (create_lp_model (module_globals world0) [lkw1] [auf1, auf2]
        (fst (determine_permissible_pairs_and_values world0 [lkw1] [auf1, auf2]))))
     val1 \<and>
   (\<exists>details unassigned util w'.
      extract_and_show_results world0
        (fst (create_lp_model (module_globals world0) [lkw1] [auf1, auf2]
           (fst (determine_permissible_pairs_and_values world0 [lkw1] [auf1, auf2]))))
        (snd (create_lp_model (module_globals world0) [lkw1] [auf1, auf2]
           (fst (determine_permissible_pairs_and_values world0 [lkw1] [auf1, auf2]))), val1)
        [lkw1] [auf1, auf2]
        (fst (determine_permissible_pairs_and_values world0 [lkw1] [auf1, auf2]))
        LpStatusOptimal = Inr ((details, unassigned, util), w') \<and>
      map auftrag_id details = [''AUF1''] \<and>
      distinct (map auftrag_id details) \<and> distinct (map lkw_id details))"
proof -
  let ?pp = "fst (determine_permissible_pairs_and_values world0 [lkw1] [auf1, auf2])"
  let ?m = "create_lp_model (module_globals world0) [lkw1] [auf1, auf2] ?pp"
  let ?r = "extract_and_show_results world0 (fst ?m) (snd ?m, val1) [lkw1] [auf1, auf2] ?pp
              LpStatusOptimal"
  from example_pairs obtain v where pp: "?pp = [((''LKW1'', ''AUF1''), v)]" by blast
  have m: "?m = (fst ?m, snd ?m)" by simp
  have ids: "Truck.truck_id lkw1 = ''LKW1''" "Order.order_id auf1 = ''AUF1''"
    "Order.order_id auf2 = ''AUF2''"
    by (simp_all add: lkw1_def auf1_def auf2_def)
  have sol: "is_solution (fst ?m) (snd ?m) val1"
    unfolding pp by (simp add: create_lp_model_def Let_def is_solution_def val1_def ids)
  have "\<exists>details unassigned util w'.
          ?r = Inr ((details, unassigned, util), w') \<and> map auftrag_id details = [''AUF1'']"
    unfolding pp
    by (simp add: extract_and_show_results_def create_lp_model_def Let_def val1_def ids
        extract_step_def)
  then obtain details unassigned util w' where r: "?r = Inr ((details, unassigned, util), w')"
    and a: "map auftrag_id details = [''AUF1'']"
    by (elim exE conjE) (rule that)
  from optimal_assignments_unique [OF m _ r] sol
  have "distinct (map auftrag_id details) \<and> distinct (map lkw_id details)" by blast
  then have d1: "distinct (map auftrag_id details)" and d2: "distinct (map lkw_id details)"
    by simp_all
  show ?thesis
    by (intro conjI exI) (rule sol r a d1 d2)+
qed

section \<open>The greedy strategies: a commit keeps the invariants\<close>

lemma list_remove_index:
  assumes "oi \<in> set av" and "os' ! oi = x" and "\<forall>j \<in> set av. j \<noteq> oi \<longrightarrow> os' ! j \<noteq> x"
  shows "list_remove os' x av = Inr (remove1 oi av)"
  using assms by (induction av) auto

lemma post_init_truck:
  "Truck2_post_init t = Inr t \<longleftrightarrow> 0 < capacity t \<and> 0 \<le> current_load t \<and> current_load t \<le> capacity t"
  by (auto simp: Truck2_post_init_def)

lemma post_init_order:
  "Order2_post_init o' = Inr o' \<longleftrightarrow> 0 < volume o' \<and> 0 < deadline_hours o'"
  by (auto simp: Order2_post_init_def)

text \<open>The state after a commit, when the order is one of the available, unassigned ones.\<close>

lemma commit_result:
  assumes av: "avail_ok s" and oi: "oi \<in> set (available_orders s)"
  shows "commit s ti oi sc det =
     Inr \<lparr>trucks = (trucks s)[ti := (trucks s ! ti)
                \<lparr>current_load := fl (current_load (trucks s ! ti) + volume (orders s ! oi))\<rparr>],
          orders = (orders s)[oi := (orders s ! oi)
                \<lparr>assigned_truck := Some (Truck2.truck_id (trucks s ! ti))\<rparr>],
          available_orders = remove1 oi (available_orders s),
          assignments = assignments s @
            [\<lparr>Assignment.truck_id = Truck2.truck_id (trucks s ! ti),
              order_id = Order2.order_id (orders s ! oi),
              distance_km = raw_distance_km det,
              estimated_duration = travel_time_hours det,
              total_cost = raw_distance_km det * cost_per_km (trucks s ! ti),
              score = sc\<rparr>]\<rparr>"
proof -
  let ?o' = "(orders s ! oi)\<lparr>assigned_truck := Some (Truck2.truck_id (trucks s ! ti))\<rparr>"
  let ?os' = "(orders s)[oi := ?o']"
  have len: "oi < length (orders s)"
    using av oi by (simp add: avail_ok_def)
  have a: "?os' ! oi = ?o'"
    using len by simp
  have b: "\<forall>j \<in> set (available_orders s). j \<noteq> oi \<longrightarrow> ?os' ! j \<noteq> ?o'"
  proof (intro ballI impI)
    fix j assume j: "j \<in> set (available_orders s)" "j \<noteq> oi"
    then have "assigned_truck (?os' ! j) = None"
      using av by (simp add: avail_ok_def is_assigned_def)
    then show "?os' ! j \<noteq> ?o'" by auto
  qed
  from list_remove_index [OF oi a b] show ?thesis
    by (simp add: commit_def Let_def)
qed

lemma commit_fields:
  assumes "avail_ok s" and "oi \<in> set (available_orders s)" and "commit s ti oi sc det = Inr s'"
  shows "trucks s' = (trucks s)[ti := (trucks s ! ti)
                \<lparr>current_load := fl (current_load (trucks s ! ti) + volume (orders s ! oi))\<rparr>]"
    and "orders s' = (orders s)[oi := (orders s ! oi)
                \<lparr>assigned_truck := Some (Truck2.truck_id (trucks s ! ti))\<rparr>]"
    and "available_orders s' = remove1 oi (available_orders s)"
    and "assignments s' = assignments s @
            [\<lparr>Assignment.truck_id = Truck2.truck_id (trucks s ! ti),
              order_id = Order2.order_id (orders s ! oi),
              distance_km = raw_distance_km det,
              estimated_duration = travel_time_hours det,
              total_cost = raw_distance_km det * cost_per_km (trucks s ! ti),
              score = sc\<rparr>]"
  using assms(3) unfolding commit_result [OF assms(1,2)] by auto

lemma commit_frame:
  assumes f: "frame ts os s" and av: "avail_ok s" and oi: "oi \<in> set (available_orders s)"
    and c: "commit s ti oi sc det = Inr s'"
  shows "frame ts os s'"
proof -
  note flds = commit_fields [OF av oi c]
  have len: "length (trucks s) = length ts" "length (orders s) = length os"
    using f by (simp_all add: frame_def)
  have t: "trucks s' ! i = (ts ! i)\<lparr>current_load := current_load (trucks s' ! i)\<rparr>"
    if "i < length ts" for i
  proof -
    have "trucks s ! i = (ts ! i)\<lparr>current_load := current_load (trucks s ! i)\<rparr>"
      using f that by (simp add: frame_def)
    then show ?thesis
      unfolding flds(1) using that len(1)
      by (cases "i = ti") (simp_all, metis Truck2.surjective Truck2.update_convs(5))
  qed
  have o: "orders s' ! j = (os ! j)\<lparr>assigned_truck := assigned_truck (orders s' ! j)\<rparr>"
    if "j < length os" for j
  proof -
    have "orders s ! j = (os ! j)\<lparr>assigned_truck := assigned_truck (orders s ! j)\<rparr>"
      using f that by (simp add: frame_def)
    then show ?thesis
      unfolding flds(2) using that len(2)
      by (cases "j = oi") (simp_all, metis Order2.surjective Order2.update_convs(11))
  qed
  show ?thesis
    unfolding frame_def using t o len by (simp add: flds(1,2))
qed

lemma commit_loads_ok:
  assumes l: "loads_ok s" and ok: "orders_ok s" and av: "avail_ok s"
    and oi: "oi \<in> set (available_orders s)"
    and c: "commit s ti oi sc det = Inr s'"
  shows "loads_ok s'"
proof -
  note flds = commit_fields [OF av oi c]
  have len: "oi < length (orders s)"
    using av oi by (simp add: avail_ok_def)
  have vol: "0 < volume (orders s ! oi)"
    using ok len by (simp add: orders_ok_def post_init_order)
  have "0 < capacity (trucks s' ! i) \<and> 0 \<le> current_load (trucks s' ! i)"
    if i: "i < length (trucks s')" for i
  proof (cases "i = ti")
    case True
    have old: "0 < capacity (trucks s ! ti)" "0 \<le> current_load (trucks s ! ti)"
      using l i True by (simp_all add: loads_ok_def flds(1))
    have "0 \<le> fl (current_load (trucks s ! ti) + volume (orders s ! oi))"
      using old(2) vol by (intro fl_nonneg) simp
    then show ?thesis
      using old i True by (simp add: flds(1))
  next
    case False
    then show ?thesis
      using l i by (simp add: loads_ok_def flds(1))
  qed
  then show ?thesis by (simp add: loads_ok_def)
qed

lemma commit_orders_ok:
  assumes ok: "orders_ok s" and av: "avail_ok s" and oi: "oi \<in> set (available_orders s)"
    and c: "commit s ti oi sc det = Inr s'"
  shows "orders_ok s'"
proof -
  note flds = commit_fields [OF av oi c]
  have "Order2_post_init (orders s' ! j) = Inr (orders s' ! j)" if j: "j < length (orders s')" for j
    using ok j by (cases "j = oi") (simp_all add: orders_ok_def flds(2) post_init_order)
  then show ?thesis by (simp add: orders_ok_def)
qed

lemma commit_avail_ok:
  assumes av: "avail_ok s" and oi: "oi \<in> set (available_orders s)"
    and c: "commit s ti oi sc det = Inr s'"
  shows "avail_ok s'" and "set (available_orders s') = set (available_orders s) - {oi}"
proof -
  note flds = commit_fields [OF av oi c]
  have d: "distinct (available_orders s)"
    using av by (simp add: avail_ok_def)
  show r: "set (available_orders s') = set (available_orders s) - {oi}"
    unfolding flds(3) using d by simp
  have "j < length (orders s') \<and> \<not> is_assigned (orders s' ! j)"
    if "j \<in> set (available_orders s')" for j
  proof -
    from that r have j: "j \<in> set (available_orders s)" "j \<noteq> oi" by auto
    then show ?thesis
      using av by (simp add: avail_ok_def flds(2))
  qed
  then show "avail_ok s'"
    unfolding avail_ok_def using d by (simp add: flds(3))
qed

lemma commit_inv:
  assumes inv: "strategy_inv ts os s" and oi: "oi \<in> set (available_orders s)"
    and ch: "can_handle_order (trucks s ! ti) (orders s ! oi)"
    and c: "commit s ti oi sc det = Inr s'"
  shows "strategy_inv ts os s'"
  using inv commit_frame [OF _ _ oi c] commit_loads_ok [OF _ _ _ oi c]
    commit_orders_ok [OF _ _ oi c] commit_avail_ok(1) [OF _ oi c]
  by (simp add: strategy_inv_def)

text \<open>
  The order of a commit fits the capacity of its truck: its volume is at most the rounded
  difference of the capacity and a load that is not negative, and rounding does not pass
  the capacity, which is a double.
\<close>

lemma commit_assigned_ok:
  assumes dbl: "\<forall>t \<in> set ts. is_double (capacity t)"
    and inv: "strategy_inv ts os s" and ti: "ti < length ts"
    and oi: "oi \<in> set (available_orders s)"
    and ch: "can_handle_order (trucks s ! ti) (orders s ! oi)"
    and c: "commit s ti oi sc det = Inr s'"
    and a: "assigned_ok ts os (assignments s)"
  shows "assigned_ok ts os (assignments s')"
proof -
  have av: "avail_ok s" and f: "frame ts os s" and l: "loads_ok s"
    using inv by (simp_all add: strategy_inv_def)
  note flds = commit_fields [OF av oi c]
  have len: "oi < length os" "length (trucks s) = length ts"
    using av oi f by (simp_all add: avail_ok_def frame_def)
  have t: "trucks s ! ti = (ts ! ti)\<lparr>current_load := current_load (trucks s ! ti)\<rparr>"
    using f ti by (simp add: frame_def)
  have o: "orders s ! oi = (os ! oi)\<lparr>assigned_truck := assigned_truck (orders s ! oi)\<rparr>"
    using f len(1) by (simp add: frame_def)
  have tid: "Truck2.truck_id (trucks s ! ti) = Truck2.truck_id (ts ! ti)"
    and cap: "capacity (trucks s ! ti) = capacity (ts ! ti)"
    by (subst t, simp)+
  have oid: "Order2.order_id (orders s ! oi) = Order2.order_id (os ! oi)"
    and vol: "volume (orders s ! oi) = volume (os ! oi)"
    by (subst o, simp)+
  have ld: "0 < capacity (trucks s ! ti)" "0 \<le> current_load (trucks s ! ti)"
    using l ti len(2) by (simp_all add: loads_ok_def)
  have "fl (capacity (ts ! ti)) = capacity (ts ! ti)"
    using dbl ti by (simp add: is_double_def)
  then have "fl (capacity (trucks s ! ti) - current_load (trucks s ! ti)) \<le> capacity (ts ! ti)"
    using ld unfolding cap by (intro fl_le_double) simp_all
  moreover have "volume (orders s ! oi) \<le>
      fl (capacity (trucks s ! ti) - current_load (trucks s ! ti))"
    using ch by (simp add: can_handle_order_def available_capacity_def)
  ultimately have "volume (os ! oi) \<le> capacity (ts ! ti)"
    unfolding vol by simp
  then show ?thesis
    using a ti len(1) tid oid unfolding assigned_ok_def flds(4) by auto
qed

section \<open>The greedy strategies: the search for the best candidate\<close>

lemma score_defined:
  assumes "0 < capacity t" and "Order2_post_init o' = Inr o'"
  shows "\<exists>sc det. calculate_assignment_score t o' = Inr (sc, det)"
  using assms by (simp add: calculate_assignment_score_def Let_def post_init_order)

lemma best_truck_loop_good:
  assumes "\<forall>i < length ts. 0 < capacity (ts ! i)"
    and "Order2_post_init order = Inr order"
    and "\<forall>ti \<in> set tis. ti < length ts"
    and "good_truck ts order b0"
  shows "\<exists>b. best_truck_loop ts order tis b0 = Inr b \<and> good_truck ts order b"
  using assms(3,4)
proof (induction tis arbitrary: b0)
  case Nil
  then show ?case by simp
next
  case (Cons ti tis)
  have ti: "ti < length ts" and rest: "\<forall>ti \<in> set tis. ti < length ts"
    using Cons.prems(1) by simp_all
  show ?case
  proof (cases "can_handle_order (ts ! ti) order")
    case False
    then show ?thesis
      using Cons.IH [OF rest Cons.prems(2)] by simp
  next
    case True
    from score_defined [OF assms(1) [rule_format, OF ti] assms(2)]
    obtain sc det where sc: "calculate_assignment_score (ts ! ti) order = Inr (sc, det)"
      by blast
    have "good_truck ts order (if score_improves sc b0 then Some (ti, sc, det) else b0)"
      using Cons.prems(2) ti True by (simp add: good_truck_def)
    from Cons.IH [OF rest this] show ?thesis
      using True sc by simp
  qed
qed

lemma best_order_loop_good:
  assumes "0 < capacity truck"
    and "\<forall>j < length os. Order2_post_init (os ! j) = Inr (os ! j)"
    and "\<forall>oi \<in> set ois. oi < length os \<and> oi \<in> av"
    and "good_order truck os av b0"
  shows "\<exists>b. best_order_loop truck os ois b0 = Inr b \<and> good_order truck os av b"
  using assms(3,4)
proof (induction ois arbitrary: b0)
  case Nil
  then show ?case by simp
next
  case (Cons oi ois)
  have oi: "oi < length os" "oi \<in> av" and rest: "\<forall>oi \<in> set ois. oi < length os \<and> oi \<in> av"
    using Cons.prems(1) by simp_all
  show ?case
  proof (cases "can_handle_order truck (os ! oi)")
    case False
    then show ?thesis
      using Cons.IH [OF rest Cons.prems(2)] by simp
  next
    case True
    from score_defined [OF assms(1) assms(2) [rule_format, OF oi(1)]]
    obtain sc det where sc: "calculate_assignment_score truck (os ! oi) = Inr (sc, det)"
      by blast
    have "good_order truck os av (if score_improves sc b0 then Some (oi, sc, det) else b0)"
      using Cons.prems(2) oi True by (simp add: good_order_def)
    from Cons.IH [OF rest this] show ?thesis
      using True sc by simp
  qed
qed

section \<open>The greedy strategies: the loops keep the invariants\<close>

text \<open>
  Both loops return a state, and keep the invariants and every property \<open>P\<close> of the
  state that each commit keeps.
\<close>

lemma priority_loop_inv:
  assumes step: "\<And>s ti oi sc det s'. strategy_inv ts os s \<Longrightarrow> P s \<Longrightarrow> ti < length ts \<Longrightarrow>
      oi \<in> set (available_orders s) \<Longrightarrow> can_handle_order (trucks s ! ti) (orders s ! oi) \<Longrightarrow>
      commit s ti oi sc det = Inr s' \<Longrightarrow> P s'"
    and "strategy_inv ts os s" and "P s"
    and "distinct rest" and "set rest \<subseteq> set (available_orders s)"
  shows "\<exists>s'. priority_loop rest s = Inr s' \<and> strategy_inv ts os s' \<and> P s'"
  using assms(2-)
proof (induction rest arbitrary: s)
  case Nil
  then show ?case by simp
next
  case (Cons oi rest)
  have inv: "frame ts os s" "loads_ok s" "orders_ok s" "avail_ok s"
    using Cons.prems(1) by (simp_all add: strategy_inv_def)
  have oi: "oi \<in> set (available_orders s)" and d: "distinct rest" "oi \<notin> set rest"
    and sub: "set rest \<subseteq> set (available_orders s)"
    using Cons.prems(3,4) by simp_all
  have len: "oi < length (orders s)" "length (trucks s) = length ts"
    using inv(1,4) oi by (simp_all add: avail_ok_def frame_def)
  have "\<exists>b. best_truck_loop (trucks s) (orders s ! oi) [0..<length (trucks s)] None = Inr b \<and>
          good_truck (trucks s) (orders s ! oi) b"
    using inv(2,3) len(1)
    by (intro best_truck_loop_good) (simp_all add: loads_ok_def orders_ok_def good_truck_def)
  then obtain b where b: "best_truck_loop (trucks s) (orders s ! oi) [0..<length (trucks s)] None = Inr b"
    and g: "good_truck (trucks s) (orders s ! oi) b"
    by blast
  show ?case
  proof (cases b)
    case None
    from Cons.IH [OF Cons.prems(1,2) d(1) sub] show ?thesis
      using b None by simp
  next
    case (Some c)
    obtain ti sc det where c: "c = (ti, sc, det)" by (cases c)
    have ti: "ti < length ts" and ch: "can_handle_order (trucks s ! ti) (orders s ! oi)"
      using g Some c len(2) by (simp_all add: good_truck_def)
    from commit_result [OF inv(4) oi, of ti sc det]
    obtain s1 where s1: "commit s ti oi sc det = Inr s1" by blast
    have inv1: "strategy_inv ts os s1"
      by (rule commit_inv [OF Cons.prems(1) oi ch s1])
    have p1: "P s1"
      by (rule step [OF Cons.prems(1,2) ti oi ch s1])
    have "set rest \<subseteq> set (available_orders s1)"
      unfolding commit_avail_ok(2) [OF inv(4) oi s1] using sub d(2) by auto
    from Cons.IH [OF inv1 p1 d(1) this] show ?thesis
      using b Some c s1 by simp
  qed
qed

lemma greedy_loop_inv:
  assumes step: "\<And>s ti oi sc det s'. strategy_inv ts os s \<Longrightarrow> P s \<Longrightarrow> ti < length ts \<Longrightarrow>
      oi \<in> set (available_orders s) \<Longrightarrow> can_handle_order (trucks s ! ti) (orders s ! oi) \<Longrightarrow>
      commit s ti oi sc det = Inr s' \<Longrightarrow> P s'"
    and "strategy_inv ts os s" and "P s"
    and "\<forall>ti \<in> set tis. ti < length ts"
  shows "\<exists>s'. greedy_loop tis s = Inr s' \<and> strategy_inv ts os s' \<and> P s'"
  using assms(2-)
proof (induction tis arbitrary: s)
  case Nil
  then show ?case by simp
next
  case (Cons ti tis)
  have inv: "frame ts os s" "loads_ok s" "orders_ok s" "avail_ok s"
    using Cons.prems(1) by (simp_all add: strategy_inv_def)
  have ti: "ti < length ts" and rest: "\<forall>ti \<in> set tis. ti < length ts"
    using Cons.prems(3) by simp_all
  have len: "length (trucks s) = length ts"
    using inv(1) by (simp add: frame_def)
  have "\<exists>b. best_order_loop (trucks s ! ti) (orders s) (available_orders s) None = Inr b \<and>
          good_order (trucks s ! ti) (orders s) (set (available_orders s)) b"
    using inv(2,3,4) ti len
    by (intro best_order_loop_good)
      (simp_all add: loads_ok_def orders_ok_def avail_ok_def good_order_def)
  then obtain b where b: "best_order_loop (trucks s ! ti) (orders s) (available_orders s) None = Inr b"
    and g: "good_order (trucks s ! ti) (orders s) (set (available_orders s)) b"
    by blast
  show ?case
  proof (cases b)
    case None
    from Cons.IH [OF Cons.prems(1,2) rest] show ?thesis
      using b None by simp
  next
    case (Some c)
    obtain oi sc det where c: "c = (oi, sc, det)" by (cases c)
    have oi: "oi \<in> set (available_orders s)"
      and ch: "can_handle_order (trucks s ! ti) (orders s ! oi)"
      using g Some c by (simp_all add: good_order_def)
    from commit_result [OF inv(4) oi, of ti sc det]
    obtain s1 where s1: "commit s ti oi sc det = Inr s1" by blast
    have inv1: "strategy_inv ts os s1"
      by (rule commit_inv [OF Cons.prems(1) oi ch s1])
    have p1: "P s1"
      by (rule step [OF Cons.prems(1,2) ti oi ch s1])
    from Cons.IH [OF inv1 p1 rest] show ?thesis
      using b Some c s1 by simp
  qed
qed

section \<open>The greedy strategies: the result of a run\<close>

lemma initial_inv:
  assumes "\<forall>t \<in> set ts. Truck2_post_init t = Inr t" and "\<forall>o' \<in> set os. Order2_post_init o' = Inr o'"
  shows "strategy_inv ts os
           \<lparr>trucks = ts, orders = os,
            available_orders = filter (\<lambda>i. \<not> is_assigned (os ! i)) [0..<length os],
            assignments = []\<rparr>"
  using assms
  by (simp add: strategy_inv_def frame_def loads_ok_def orders_ok_def avail_ok_def
      post_init_truck)

lemma priority_first_run:
  assumes step: "\<And>s ti oi sc det s'. strategy_inv ts os s \<Longrightarrow> P s \<Longrightarrow> ti < length ts \<Longrightarrow>
      oi \<in> set (available_orders s) \<Longrightarrow> can_handle_order (trucks s ! ti) (orders s ! oi) \<Longrightarrow>
      commit s ti oi sc det = Inr s' \<Longrightarrow> P s'"
    and v: "\<forall>t \<in> set ts. Truck2_post_init t = Inr t" "\<forall>o' \<in> set os. Order2_post_init o' = Inr o'"
    and p: "P \<lparr>trucks = ts, orders = os,
              available_orders = filter (\<lambda>i. \<not> is_assigned (os ! i)) [0..<length os],
              assignments = []\<rparr>"
  shows "\<exists>s'. PriorityFirstStrategy_assign ts os = Inr s' \<and> strategy_inv ts os s' \<and> P s'"
  unfolding PriorityFirstStrategy_assign_def Let_def
  by (rule priority_loop_inv [where P = P, OF step initial_inv [OF v] p]) simp_all

lemma greedy_nearest_run:
  assumes step: "\<And>s ti oi sc det s'. strategy_inv ts os s \<Longrightarrow> P s \<Longrightarrow> ti < length ts \<Longrightarrow>
      oi \<in> set (available_orders s) \<Longrightarrow> can_handle_order (trucks s ! ti) (orders s ! oi) \<Longrightarrow>
      commit s ti oi sc det = Inr s' \<Longrightarrow> P s'"
    and v: "\<forall>t \<in> set ts. Truck2_post_init t = Inr t" "\<forall>o' \<in> set os. Order2_post_init o' = Inr o'"
    and p: "P \<lparr>trucks = ts, orders = os,
              available_orders = filter (\<lambda>i. \<not> is_assigned (os ! i)) [0..<length os],
              assignments = []\<rparr>"
  shows "\<exists>s'. GreedyNearestStrategy_assign ts os = Inr s' \<and> strategy_inv ts os s' \<and> P s'"
  unfolding GreedyNearestStrategy_assign_def Let_def
  by (rule greedy_loop_inv [where P = P, OF step initial_inv [OF v] p]) simp_all

lemma strategies_assigned_ok:
  assumes v: "\<forall>t \<in> set ts. Truck2_post_init t = Inr t" "\<forall>o' \<in> set os. Order2_post_init o' = Inr o'"
    and dbl: "\<forall>t \<in> set ts. is_double (capacity t)"
  shows "\<exists>s'. PriorityFirstStrategy_assign ts os = Inr s' \<and> assigned_ok ts os (assignments s')"
    and "\<exists>s'. GreedyNearestStrategy_assign ts os = Inr s' \<and> assigned_ok ts os (assignments s')"
proof -
  have "\<exists>s'. PriorityFirstStrategy_assign ts os = Inr s' \<and> strategy_inv ts os s' \<and>
          assigned_ok ts os (assignments s')"
  proof (rule priority_first_run [where P = "\<lambda>s. assigned_ok ts os (assignments s)"], goal_cases)
    case (1 s ti oi sc det s')
    show ?case by (rule commit_assigned_ok [OF dbl 1(1,3,4,5,6,2)])
  qed (use v in \<open>simp_all add: assigned_ok_def\<close>)
  then show "\<exists>s'. PriorityFirstStrategy_assign ts os = Inr s' \<and> assigned_ok ts os (assignments s')"
    by blast
  have "\<exists>s'. GreedyNearestStrategy_assign ts os = Inr s' \<and> strategy_inv ts os s' \<and>
          assigned_ok ts os (assignments s')"
  proof (rule greedy_nearest_run [where P = "\<lambda>s. assigned_ok ts os (assignments s)"], goal_cases)
    case (1 s ti oi sc det s')
    show ?case by (rule commit_assigned_ok [OF dbl 1(1,3,4,5,6,2)])
  qed (use v in \<open>simp_all add: assigned_ok_def\<close>)
  then show "\<exists>s'. GreedyNearestStrategy_assign ts os = Inr s' \<and> assigned_ok ts os (assignments s')"
    by blast
qed

section \<open>The capacity invariant\<close>

lemma find_Some_distinct:
  assumes "find (\<lambda>x. f x = a) xs = Some y" and "distinct (map f xs)" and "x \<in> set xs" and "f x = a"
  shows "y = x"
proof -
  from assms(1) have "y \<in> set xs" "f y = a"
    by (auto simp: find_Some_iff)
  with assms(2-) show ?thesis
    using distinct_map_eq [of f xs y x] by simp
qed

lemma extracted_detail_capacity:
  assumes ex: "extract_and_show_results w' prob (x_vars, val) ts os
                 (permissible_loop g ts os) status = Inr ((details, unassigned, util), w'')"
    and d: "d \<in> set details"
  shows "(\<exists>t \<in> set ts. \<exists>o' \<in> set os.
            Truck.truck_id t = lkw_id d \<and> Order.order_id o' = auftrag_id d \<and>
            weight_kg o' \<le> capacity_kg t) \<and>
         (distinct (map Truck.truck_id ts) \<longrightarrow> distinct (map Order.order_id os) \<longrightarrow>
            auftrag_gewicht_kg d \<le> lkw_kapazitaet_kg d)"
proof -
  let ?pp = "permissible_loop g ts os"
  let ?Q = "\<lambda>d. (\<exists>t \<in> set ts. \<exists>o' \<in> set os.
            Truck.truck_id t = lkw_id d \<and> Order.order_id o' = auftrag_id d \<and>
            weight_kg o' \<le> capacity_kg t) \<and>
         (distinct (map Truck.truck_id ts) \<longrightarrow> distinct (map Order.order_id os) \<longrightarrow>
            auftrag_gewicht_kg d \<le> lkw_kapazitaet_kg d)"
  from extract_details(2) [OF ex] obtain s0 where s0: "assigned_orders_details s0 = []"
    and ds: "details =
             sort_key (\<lambda>x. (auftrag_prio_original x, lkw_id x))
               (assigned_orders_details
                  (foldl (extract_step ts os ?pp) s0 (filter (\<lambda>k. val k > 0.5) x_vars)))"
    by blast
  have "\<forall>d \<in> set (assigned_orders_details
                    (foldl (extract_step ts os ?pp) s0 (filter (\<lambda>k. val k > 0.5) x_vars))). ?Q d"
  proof (rule extract_loop_sound, goal_cases)
    case 1
    show ?case by (simp add: s0)
  next
    case (2 k v t' i)
    from permissible_loop_from_check [of g ts os] 2(2)
    obtain t o' where to: "t \<in> set ts" "o' \<in> set os"
        "k = (Truck.truck_id t, Order.order_id o')" "check_pair g t o' = Some v"
      unfolding from_check_def by blast
    have cap: "weight_kg o' \<le> capacity_kg t"
      by (rule check_pair_values(5) [OF to(4)])
    have i: "i < length os" "Order.order_id (os ! i) = snd k"
      using first_index_Some [OF 2(4)] by simp_all
    have "weight_kg (os ! i) \<le> capacity_kg t'"
      if dd: "distinct (map Truck.truck_id ts)" "distinct (map Order.order_id os)"
    proof -
      have "t' = t"
        using find_Some_distinct [OF 2(3) dd(1) to(1)] to(3) by simp
      moreover have "os ! i = o'"
        using distinct_map_eq [OF dd(2) _ to(2), of "os ! i"] i to(3) by simp
      ultimately show ?thesis using cap by simp
    qed
    then show ?case
      using to cap by auto
  qed
  with d ds show ?thesis
    by simp
qed

text \<open>
  Claim C3. Optimal strategy: the model has a variable only for pairs of a truck and an
  order whose weight is at most the capacity, and every detail extracted for the
  permissible pairs is of such a truck and order; with unique ids the weight and the
  capacity recorded in the detail are theirs. Greedy strategies: on trucks and orders
  that passed their validation, the capacities being doubles, both strategies return,
  and every assignment is of an order of the list to a truck of the list whose capacity
  is at least the volume.
\<close>

theorem capacity_invariant:
  "(create_lp_model (module_globals w) truck_list order_list
      (fst (determine_permissible_pairs_and_values w truck_list order_list)) = (prob, x_vars) \<longrightarrow>
      (\<forall>k \<in> set x_vars. \<exists>t \<in> set truck_list. \<exists>o' \<in> set order_list.
         k = (Truck.truck_id t, Order.order_id o') \<and> weight_kg o' \<le> capacity_kg t)) \<and>
   (extract_and_show_results w' prob' (x_vars', val) truck_list order_list
      (fst (determine_permissible_pairs_and_values w truck_list order_list)) status =
      Inr ((details, unassigned, util), w'') \<longrightarrow>
      (\<forall>d \<in> set details.
         (\<exists>t \<in> set truck_list. \<exists>o' \<in> set order_list.
            Truck.truck_id t = lkw_id d \<and> Order.order_id o' = auftrag_id d \<and>
            weight_kg o' \<le> capacity_kg t) \<and>
         (distinct (map Truck.truck_id truck_list) \<longrightarrow>
          distinct (map Order.order_id order_list) \<longrightarrow>
            auftrag_gewicht_kg d \<le> lkw_kapazitaet_kg d))) \<and>
   ((\<forall>t \<in> set ts. Truck2_post_init t = Inr t) \<longrightarrow>
    (\<forall>o' \<in> set os. Order2_post_init o' = Inr o') \<longrightarrow>
    (\<forall>t \<in> set ts. is_double (capacity t)) \<longrightarrow>
      (\<exists>s. GreedyNearestStrategy_assign ts os = Inr s \<and> assigned_ok ts os (assignments s)) \<and>
      (\<exists>s. PriorityFirstStrategy_assign ts os = Inr s \<and> assigned_ok ts os (assignments s)))"
proof (intro conjI impI ballI)
  fix k
  assume m: "create_lp_model (module_globals w) truck_list order_list
      (fst (determine_permissible_pairs_and_values w truck_list order_list)) = (prob, x_vars)"
    and k: "k \<in> set x_vars"
  have "k \<in> fst ` set (fst (determine_permissible_pairs_and_values w truck_list order_list))"
    using k create_lp_model_objective(2) [OF m] by simp
  then show "\<exists>t \<in> set truck_list. \<exists>o' \<in> set order_list.
         k = (Truck.truck_id t, Order.order_id o') \<and> weight_kg o' \<le> capacity_kg t"
    unfolding permissible_keys by (auto simp: feasible_def)
next
  fix d
  assume ex: "extract_and_show_results w' prob' (x_vars', val) truck_list order_list
      (fst (determine_permissible_pairs_and_values w truck_list order_list)) status =
      Inr ((details, unassigned, util), w'')"
    and d: "d \<in> set details"
  have pp: "fst (determine_permissible_pairs_and_values w truck_list order_list) =
      permissible_loop (module_globals w) truck_list order_list"
    by (simp add: determine_permissible_pairs_and_values_def Let_def)
  note r = extracted_detail_capacity [OF ex [unfolded pp] d]
  show "\<exists>t \<in> set truck_list. \<exists>o' \<in> set order_list.
            Truck.truck_id t = lkw_id d \<and> Order.order_id o' = auftrag_id d \<and>
            weight_kg o' \<le> capacity_kg t"
    using r by blast
  show "auftrag_gewicht_kg d \<le> lkw_kapazitaet_kg d"
    if "distinct (map Truck.truck_id truck_list)" "distinct (map Order.order_id order_list)"
    using r that by blast
next
  assume v: "\<forall>t \<in> set ts. Truck2_post_init t = Inr t" "\<forall>o' \<in> set os. Order2_post_init o' = Inr o'"
    and dbl: "\<forall>t \<in> set ts. is_double (capacity t)"
  show "\<exists>s. GreedyNearestStrategy_assign ts os = Inr s \<and> assigned_ok ts os (assignments s)"
    by (rule strategies_assigned_ok(2) [OF v dbl])
  show "\<exists>s. PriorityFirstStrategy_assign ts os = Inr s \<and> assigned_ok ts os (assignments s)"
    by (rule strategies_assigned_ok(1) [OF v dbl])
qed

theorem capacity_invariant_witness:
  "Truck2_post_init lkw001 = Inr lkw001 \<and>
   Order2_post_init auf001 = Inr auf001 \<and> Order2_post_init auf004 = Inr auf004 \<and>
   Order2_post_init auf008 = Inr auf008 \<and> is_double (capacity lkw001) \<and>
   (\<exists>s. GreedyNearestStrategy_assign [lkw001] [auf001, auf004, auf008] = Inr s \<and>
        assigned_ok [lkw001] [auf001, auf004, auf008] (assignments s)) \<and>
   (\<exists>s. PriorityFirstStrategy_assign [lkw001] [auf001, auf004, auf008] = Inr s \<and>
        assigned_ok [lkw001] [auf001, auf004, auf008] (assignments s)) \<and>
   distinct (map Truck.truck_id [lkw1]) \<and> distinct (map Order.order_id [auf1, auf2]) \<and>
   list_all (\<lambda>k. \<exists>t \<in> set [lkw1]. \<exists>o' \<in> set [auf1, auf2].
               k = (Truck.truck_id t, Order.order_id o') \<and> weight_kg o' \<le> capacity_kg t)
     (snd (create_lp_model (module_globals world0) [lkw1] [auf1, auf2]
             (fst (determine_permissible_pairs_and_values world0 [lkw1] [auf1, auf2])))) \<and>
   (\<exists>details unassigned util w'.
      extract_and_show_results world0
        (fst (create_lp_model (module_globals world0) [lkw1] [auf1, auf2]
           (fst (determine_permissible_pairs_and_values world0 [lkw1] [auf1, auf2]))))
        (snd (create_lp_model (module_globals world0) [lkw1] [auf1, auf2]
           (fst (determine_permissible_pairs_and_values world0 [lkw1] [auf1, auf2]))), val1)
        [lkw1] [auf1, auf2]
        (fst (determine_permissible_pairs_and_values world0 [lkw1] [auf1, auf2]))
        LpStatusOptimal = Inr ((details, unassigned, util), w') \<and>
      list_all (\<lambda>d. auftrag_gewicht_kg d \<le> lkw_kapazitaet_kg d) details)"
proof -
  let ?pp = "fst (determine_permissible_pairs_and_values world0 [lkw1] [auf1, auf2])"
  let ?m = "create_lp_model (module_globals world0) [lkw1] [auf1, auf2] ?pp"
  let ?r = "extract_and_show_results world0 (fst ?m) (snd ?m, val1) [lkw1] [auf1, auf2] ?pp
              LpStatusOptimal"
  have m: "?m = (fst ?m, snd ?m)" by simp
  have "\<exists>x. ?r = Inr x"
    by (simp add: extract_and_show_results_def Let_def)
  then obtain details unassigned util w' where r: "?r = Inr ((details, unassigned, util), w')"
    by (metis prod.collapse)
  have d: "distinct (map Truck.truck_id [lkw1])" "distinct (map Order.order_id [auf1, auf2])"
    by (simp_all add: auf1_def auf2_def)
  have v: "\<forall>t \<in> set [lkw001]. Truck2_post_init t = Inr t"
    "\<forall>o' \<in> set [auf001, auf004, auf008]. Order2_post_init o' = Inr o'"
    by (simp_all add: post_init_truck post_init_order lkw001_def auf001_def auf004_def auf008_def)
  have dbl: "is_double (capacity lkw001)"
    by (simp add: is_double_def lkw001_def fl_eval [where k = 4] rne_def)
  then have dbl': "\<forall>t \<in> set [lkw001]. is_double (capacity t)"
    by simp
  note c = capacity_invariant [where w = world0 and truck_list = "[lkw1]"
      and order_list = "[auf1, auf2]" and prob = "fst ?m" and x_vars = "snd ?m"
      and w' = world0 and prob' = "fst ?m" and x_vars' = "snd ?m" and val = val1
      and status = LpStatusOptimal and details = details
      and unassigned = unassigned and util = util and w'' = w'
      and ts = "[lkw001]" and os = "[auf001, auf004, auf008]"]
  from c m have c1: "\<forall>k \<in> set (snd ?m). \<exists>t \<in> set [lkw1]. \<exists>o' \<in> set [auf1, auf2].
        k = (Truck.truck_id t, Order.order_id o') \<and> weight_kg o' \<le> capacity_kg t"
    by blast
  from c r d have "\<forall>d \<in> set details. auftrag_gewicht_kg d \<le> lkw_kapazitaet_kg d"
    by blast
  with r have c2: "\<exists>details unassigned util w'.
      ?r = Inr ((details, unassigned, util), w') \<and>
      list_all (\<lambda>d. auftrag_gewicht_kg d \<le> lkw_kapazitaet_kg d) details"
    unfolding list_all_iff by blast
  from c v dbl' have c3:
    "\<exists>s. GreedyNearestStrategy_assign [lkw001] [auf001, auf004, auf008] = Inr s \<and>
        assigned_ok [lkw001] [auf001, auf004, auf008] (assignments s)"
    "\<exists>s. PriorityFirstStrategy_assign [lkw001] [auf001, auf004, auf008] = Inr s \<and>
        assigned_ok [lkw001] [auf001, auf004, auf008] (assignments s)"
    by blast+
  have v': "Truck2_post_init lkw001 = Inr lkw001"
    "Order2_post_init auf001 = Inr auf001" "Order2_post_init auf004 = Inr auf004"
    "Order2_post_init auf008 = Inr auf008"
    using v by simp_all
  from v' dbl c3 d c1 c2 show ?thesis
    unfolding list_all_iff by (intro conjI)
qed

section \<open>PriorityFirst: several orders on one truck, and a load above its capacity\<close>

text \<open>
  The run on the truck of capacity 10.6 and the orders of volume 8.3 and 2.3. The urgent
  order of volume 2.3 is committed first. The order of volume 8.3 then passes the check,
  because the difference 10.6 - 2.3 rounds to 8.3; the sum 2.3 + 8.3 of the commit
  rounds to the double above 10.6.
\<close>

lemma overload_doubles:
  "is_double (capacity lkw106)" "is_double (current_load lkw106)"
  "is_double (volume auf83)" "is_double (volume auf23)"
proof -
  show "is_double (capacity lkw106)"
    by (simp add: is_double_def lkw106_def fl_eval [where k = 3] rne_def)
  show "is_double (current_load lkw106)"
    by (simp add: is_double_def lkw106_def fl_def)
  show "is_double (volume auf83)"
    by (simp add: is_double_def auf83_def fl_eval [where k = 3] rne_def)
  show "is_double (volume auf23)"
    by (simp add: is_double_def auf23_def fl_eval [where k = 1] rne_def)
qed

lemma overload_check1: "can_handle_order lkw106 auf23"
  by (simp add: can_handle_order_def available_capacity_def lkw106_def auf23_def
      fl_eval [where k = 3] rne_def)

lemma overload_load1:
  "fl (current_load lkw106 + volume auf23) = 2589569785738035 / 1125899906842624"
  by (simp add: lkw106_def auf23_def fl_eval [where k = 1] rne_def)

lemma overload_check2:
  "can_handle_order (lkw106\<lparr>current_load := 2589569785738035 / 1125899906842624\<rparr>) auf83"
  by (simp add: can_handle_order_def available_capacity_def lkw106_def auf83_def
      fl_eval [where k = 3] rne_def)

lemma overload_load2:
  "fl (2589569785738035 / 1125899906842624 + volume auf83) =
     5967269506265908 / 562949953421312"
  by (simp add: auf83_def fl_eval [where k = 3] rne_def)

lemma overload_score1:
  "calculate_assignment_score lkw106 auf23 =
     Inr (0.08 + (1 - volume auf23 / capacity lkw106) * 0.6,
          \<lparr>det_distance = 0, det_priority = 0.08,
           det_capacity = (1 - volume auf23 / capacity lkw106) * 0.6,
           det_time = 0, raw_distance_km = 0, travel_time_hours = 0\<rparr>)"
  by (simp add: calculate_assignment_score_def Let_def position_def pickup_position_def
      lkw106_def auf23_def calculate_distance2_same priority_score_def estimate_travel_time_def
      DISTANCE_WEIGHT_def PRIORITY_WEIGHT_def CAPACITY_WEIGHT_def TIME_WEIGHT_def)

lemma overload_score2:
  "calculate_assignment_score (lkw106\<lparr>current_load := l\<rparr>) auf83 =
     Inr (0.24 + (1 - volume auf83 / capacity lkw106) * 0.6,
          \<lparr>det_distance = 0, det_priority = 0.24,
           det_capacity = (1 - volume auf83 / capacity lkw106) * 0.6,
           det_time = 0, raw_distance_km = 0, travel_time_hours = 0\<rparr>)"
  by (simp add: calculate_assignment_score_def Let_def position_def pickup_position_def
      lkw106_def auf83_def calculate_distance2_same priority_score_def estimate_travel_time_def
      DISTANCE_WEIGHT_def PRIORITY_WEIGHT_def CAPACITY_WEIGHT_def TIME_WEIGHT_def)

lemma overload_sorted:
  "sort_key (\<lambda>i. priority_order_index (Order2.priority ([auf83, auf23] ! i)))
     (filter (\<lambda>i. \<not> is_assigned ([auf83, auf23] ! i)) [0..<length [auf83, auf23]]) = [1, 0]"
proof -
  have "[0..<length [auf83, auf23]] = [0, Suc 0]"
    by (simp add: upt_rec)
  then show ?thesis
    by (simp add: is_assigned_def auf83_def auf23_def)
qed

lemma overload_run:
  "PriorityFirstStrategy_assign [lkw106] [auf83, auf23] =
     Inr \<lparr>trucks = [lkw106\<lparr>current_load := 5967269506265908 / 562949953421312\<rparr>],
          orders = [auf83\<lparr>assigned_truck := Some ''LKW106''\<rparr>,
                    auf23\<lparr>assigned_truck := Some ''LKW106''\<rparr>],
          available_orders = [],
          assignments =
            [\<lparr>Assignment.truck_id = ''LKW106'', order_id = ''AUF23'', distance_km = 0,
              estimated_duration = 0, total_cost = 0,
              score = 0.08 + (1 - volume auf23 / capacity lkw106) * 0.6\<rparr>,
             \<lparr>Assignment.truck_id = ''LKW106'', order_id = ''AUF83'', distance_km = 0,
              estimated_duration = 0, total_cost = 0,
              score = 0.24 + (1 - volume auf83 / capacity lkw106) * 0.6\<rparr>]\<rparr>"
proof -
  have up: "[0..<length [lkw106]] = [0]" "[0..<length [lkw106\<lparr>current_load := l\<rparr>]] = [0]" for l
    by simp_all
  have ne: "auf83 \<noteq> auf23\<lparr>assigned_truck := a\<rparr>" for a
    by (simp add: auf83_def auf23_def)
  have v: "Truck2.truck_id lkw106 = ''LKW106''" "Order2.order_id auf83 = ''AUF83''"
    "Order2.order_id auf23 = ''AUF23''" "\<not> is_assigned auf83" "\<not> is_assigned auf23"
    by (simp_all add: lkw106_def auf83_def auf23_def is_assigned_def)
  show ?thesis
    unfolding PriorityFirstStrategy_assign_def Let_def overload_sorted
    using overload_check1 overload_check2 ne
    by (simp add: up commit_def Let_def score_improves_def v overload_score1 overload_score2
        overload_load1 overload_load2)
qed

text \<open>
  Claim C9, at the input where it fails. The truck and the orders pass their validation,
  and their capacity, load and volumes are doubles. The run of the PriorityFirst strategy
  returns, the one truck receives both orders, and its load at the end is above its
  capacity: the truck would no longer pass the validation of \<open>__post_init__\<close>.
\<close>

theorem priority_first_exceeds_capacity:
  "Truck2_post_init lkw106 = Inr lkw106 \<and>
   Order2_post_init auf83 = Inr auf83 \<and> Order2_post_init auf23 = Inr auf23 \<and>
   is_double (capacity lkw106) \<and> is_double (current_load lkw106) \<and>
   is_double (volume auf83) \<and> is_double (volume auf23) \<and>
   (\<exists>s. PriorityFirstStrategy_assign [lkw106] [auf83, auf23] = Inr s \<and>
        map Assignment.truck_id (assignments s) = [''LKW106'', ''LKW106''] \<and>
        map Assignment.order_id (assignments s) = [''AUF23'', ''AUF83''] \<and>
        map capacity (trucks s) = [5967269506265907 / 562949953421312] \<and>
        map current_load (trucks s) = [5967269506265908 / 562949953421312] \<and>
        list_all (\<lambda>t. capacity t < current_load t \<and> Truck2_post_init t = Inl ValueError)
          (trucks s))"
proof -
  have "Truck2_post_init lkw106 = Inr lkw106"
    "Order2_post_init auf83 = Inr auf83" "Order2_post_init auf23 = Inr auf23"
    by (simp_all add: post_init_truck post_init_order lkw106_def auf83_def auf23_def)
  moreover have "capacity lkw106 = 5967269506265907 / 562949953421312"
    by (simp add: lkw106_def)
  ultimately show ?thesis
    using overload_doubles unfolding overload_run
    by (simp add: Truck2_post_init_def)
qed

end
